theory Spec2Isabelle
  imports Main
begin

section \<open>GetADPSO: a shallow embedding of \<^verbatim>\<open>GetADPSO.py\<close>\<close>

text \<open>
  The script enumerates the fine-grained password policies of an Active Directory domain.
  Its pure parts (the search base, the interval decoder, the extraction of a policy
  name from a distinguished name) are embedded as HOL functions on strings and integers.
  Its effects (binding, searching, unbinding, printing) are embedded as computations over
  a log of events, against a directory that is a parameter of the model.
\<close>

subsection \<open>Exceptions\<close>

text \<open>
  Every exception the script can meet is a value. \<open>LDAPSocketOpenError\<close> and
  \<open>LDAPBindError\<close> are the two that \<^verbatim>\<open>create_connection\<close> catches;
  \<open>LDAPException\<close> stands for any other exception of the directory library.
\<close>

datatype exn =
    IndexError
  | TypeError
  | ValueError
  | OverflowError
  | ZeroDivisionError
  | LDAPKeyError string
  | LDAPCursorError string
  | LDAPSocketOpenError
  | LDAPBindError string
  | LDAPException string

subsection \<open>Python strings: \<^verbatim>\<open>split\<close>, \<^verbatim>\<open>join\<close>, \<^verbatim>\<open>str\<close> of an integer\<close>

text \<open>
  \<^verbatim>\<open>s.split(sep)\<close> for a non-empty separator: the pieces between the successive
  leftmost occurrences of \<open>sep\<close>, scanning from the left. The accumulator \<open>cur\<close> holds
  the piece being read, reversed. (With an empty separator Python raises; the script only
  splits at the literals \<^verbatim>\<open>'.'\<close>, \<^verbatim>\<open>','\<close> and \<^verbatim>\<open>'='\<close>, and here an empty
  separator never matches.)
\<close>

function split_from :: "string \<Rightarrow> string \<Rightarrow> string \<Rightarrow> string list" where
  "split_from sep cur s =
     (if s = [] then [rev cur]
      else if sep \<noteq> [] \<and> take (length sep) s = sep
           then rev cur # split_from sep [] (drop (length sep) s)
           else split_from sep (hd s # cur) (tl s))"
  by pat_completeness auto
termination
  by (relation "measure (\<lambda>(sep, cur, s). length s)") auto

definition py_split :: "string \<Rightarrow> string \<Rightarrow> string list" where
  "py_split s sep = split_from sep [] s"

text \<open>\<^verbatim>\<open>sep.join(parts)\<close>.\<close>

fun py_join :: "string \<Rightarrow> string list \<Rightarrow> string" where
  "py_join sep [] = []"
| "py_join sep [p] = p"
| "py_join sep (p # q # ps) = p @ sep @ py_join sep (q # ps)"

text \<open>\<^verbatim>\<open>str(n)\<close> for an integer: decimal digits, with a minus sign when negative.\<close>

function str_digits :: "int \<Rightarrow> string" where
  "str_digits n =
     (if n < 10 then [''0123456789'' ! nat n]
      else str_digits (n div 10) @ [''0123456789'' ! nat (n mod 10)])"
  by pat_completeness auto
termination
  by (relation "measure nat") auto

definition str_int :: "int \<Rightarrow> string" where
  "str_int i = (if i < 0 then CHR ''-'' # str_digits (- i) else str_digits i)"

subsection \<open>\<^verbatim>\<open>base_creator\<close> and the inline search base\<close>

text \<open>Line 8: \<^verbatim>\<open>','.join([f"DC={part}" for part in domain.split('.')])\<close>.\<close>

definition base_creator :: "string \<Rightarrow> string" where
  "base_creator domain = py_join '','' (map (\<lambda>part. ''DC='' @ part) (py_split domain ''.''))"

text \<open>Lines 43 and 96: \<^verbatim>\<open>'DC=' + ',DC='.join(domain.split('.'))\<close>.\<close>

definition search_base_of :: "string \<Rightarrow> string" where
  "search_base_of domain = ''DC='' @ py_join '',DC='' (py_split domain ''.'')"

text \<open>
  The way back, as the specification words it: the base without its leading \<^verbatim>\<open>DC=\<close>,
  split at \<^verbatim>\<open>,DC=\<close>, gives the labels; joined with dots they give a domain name.
  \<open>occurs_in sep s\<close>: the string \<open>sep\<close> occurs somewhere in \<open>s\<close>.
\<close>

definition spec_base_labels :: "string \<Rightarrow> string list" where
  "spec_base_labels base = py_split (drop 3 base) '',DC=''"

definition spec_domain_of_base :: "string \<Rightarrow> string" where
  "spec_domain_of_base base = py_join ''.'' (spec_base_labels base)"

fun occurs_in :: "string \<Rightarrow> string \<Rightarrow> bool" where
  "occurs_in sep [] = (sep = [])"
| "occurs_in sep (x # xs) = (take (length sep) (x # xs) = sep \<or> occurs_in sep xs)"

subsection \<open>\<^verbatim>\<open>clock\<close>: the interval decoder\<close>

text \<open>
  \<^verbatim>\<open>nano / 10000000\<close> is Python 3's true division of two integers: its result is the
  double nearest to the exact quotient (ties to even), or \<open>OverflowError\<close> when that is
  beyond the range of a double. A finite double is \<open>m * 2 ^ e\<close> for integers \<open>m\<close> and
  \<open>e\<close>, and is represented by that pair.
\<close>

datatype pyfloat = PyFloat int int

function bit_length :: "int \<Rightarrow> int" where
  "bit_length n = (if n \<le> 0 then 0 else 1 + bit_length (n div 2))"
  by pat_completeness auto
termination
  by (relation "measure nat") auto

text \<open>The integer nearest to \<open>n / d\<close>, ties to the even one (\<open>n \<ge> 0\<close>, \<open>d > 0\<close>).\<close>

definition round_half_even :: "int \<Rightarrow> int \<Rightarrow> int" where
  "round_half_even n d =
     (let q = n div d; r = n mod d
      in if 2 * r < d then q
         else if d < 2 * r then q + 1
         else if even q then q else q + 1)"

text \<open>
  The double nearest to \<open>a / b\<close> for positive \<open>a\<close> and \<open>b\<close>: \<open>fl\<close> is
  \<open>\<lfloor>log\<^sub>2 (a / b)\<rfloor>\<close>, the exponent \<open>e\<close> leaves a 53-bit significand (and is no
  smaller than that of the subnormal doubles), and the significand is the quotient
  scaled by \<open>2 ^ - e\<close>, rounded. \<open>None\<close>: the result is \<open>2 ^ 1024\<close> or more.
\<close>

definition nearest_double :: "int \<Rightarrow> int \<Rightarrow> (int \<times> int) option" where
  "nearest_double a b =
     (let d = bit_length a - bit_length b;
          fl = (if b * 2 ^ nat d \<le> a * 2 ^ nat (- d) then d else d - 1);
          e = max (fl - 52) (- 1074);
          m = round_half_even (a * 2 ^ nat (- e)) (b * 2 ^ nat e)
      in if 1024 < bit_length m + e then None else Some (m, e))"

definition py_truediv :: "int \<Rightarrow> int \<Rightarrow> exn + pyfloat" where
  "py_truediv a b =
     (if b = 0 then Inl ZeroDivisionError
      else if a = 0 then Inr (PyFloat 0 0)
      else (case nearest_double \<bar>a\<bar> \<bar>b\<bar> of
              None \<Rightarrow> Inl OverflowError
            | Some (m, e) \<Rightarrow> Inr (PyFloat (sgn a * sgn b * m) e)))"

text \<open>\<^verbatim>\<open>abs\<close> of a float, and \<^verbatim>\<open>int\<close> of a float, which truncates towards zero.\<close>

fun py_abs :: "pyfloat \<Rightarrow> pyfloat" where
  "py_abs (PyFloat m e) = PyFloat \<bar>m\<bar> e"

fun py_int_of_float :: "pyfloat \<Rightarrow> int" where
  "py_int_of_float (PyFloat m e) =
     (if 0 \<le> e then m * 2 ^ nat e else sgn m * (\<bar>m\<bar> div 2 ^ nat (- e)))"

text \<open>
  \<^verbatim>\<open>relativedelta(seconds=sec)\<close> of the dateutil library: the constructor stores the
  seconds and normalises them upwards, seconds into minutes, minutes into hours, hours
  into days; days are not carried further. \<open>rd_sign\<close> is the library's sign, which is
  \<open>1\<close> at \<open>0\<close>.
\<close>

record relativedelta =
  days :: int
  hours :: int
  minutes :: int
  seconds :: int

definition rd_sign :: "int \<Rightarrow> int" where
  "rd_sign x = (if x < 0 then - 1 else 1)"

definition rd_carry :: "int \<Rightarrow> int \<Rightarrow> int \<Rightarrow> int \<times> int" where
  "rd_carry limit low high =
     (if limit < \<bar>low\<bar>
      then (let s = rd_sign low in (((low * s) mod (limit + 1)) * s, high + ((low * s) div (limit + 1)) * s))
      else (low, high))"

definition rd :: "int \<Rightarrow> relativedelta" where
  "rd sec =
     (let (s, m) = rd_carry 59 sec 0;
          (m', h) = rd_carry 59 m 0;
          (h', d) = rd_carry 23 h 0
      in \<lparr>days = d, hours = h', minutes = m', seconds = s\<rparr>)"

text \<open>The format string of line 11.\<close>

definition fmt :: "relativedelta \<Rightarrow> string" where
  "fmt r = str_int (days r) @ '' days '' @ str_int (hours r) @ '' hours ''
           @ str_int (minutes r) @ '' minutes '' @ str_int (seconds r) @ '' seconds''"

text \<open>Lines 10 to 13. \<open>clock_seconds\<close> is line 12, \<^verbatim>\<open>int(abs(nano / 10000000))\<close>.\<close>

definition clock_seconds :: "int \<Rightarrow> exn + int" where
  "clock_seconds nano =
     (case py_truediv nano 10000000 of
        Inl err \<Rightarrow> Inl err
      | Inr x \<Rightarrow> Inr (py_int_of_float (py_abs x)))"

definition clock :: "int \<Rightarrow> exn + string" where
  "clock nano =
     (case clock_seconds nano of
        Inl err \<Rightarrow> Inl err
      | Inr sec \<Rightarrow> Inr (fmt (rd sec)))"

text \<open>
  The decoder as the specification words it: the absolute value, whole seconds by
  integer division, a flat decomposition into days, hours, minutes and seconds.
\<close>

definition spec_decodeInterval :: "int \<Rightarrow> string" where
  "spec_decodeInterval ticks =
     (let s = \<bar>ticks\<bar> div 10000000
      in str_int (s div 86400) @ '' days '' @ str_int ((s mod 86400) div 3600) @ '' hours ''
         @ str_int ((s mod 3600) div 60) @ '' minutes '' @ str_int (s mod 60) @ '' seconds'')"

subsection \<open>The policy name of a distinguished name\<close>

text \<open>
  Lines 59 and 112: \<^verbatim>\<open>value.split(',')[0].split('=')[1]\<close>. A split is never empty, so
  index 0 always exists; index 1 raises \<open>IndexError\<close> when the first piece has no
  \<^verbatim>\<open>'='\<close>.
\<close>

definition pso_name :: "string \<Rightarrow> exn + string" where
  "pso_name v =
     (case py_split (hd (py_split v '','')) ''='' of
        _ # name # _ \<Rightarrow> Inr name
      | _ \<Rightarrow> Inl IndexError)"

text \<open>
  The reading of the specification, to compare the extraction with: the first relative
  distinguished name of a distinguished name ends at the first comma that no backslash
  escapes (a backslash escapes the character after it), and the policy name is that
  component without the three characters \<^verbatim>\<open>CN=\<close>.
\<close>

fun spec_first_rdn :: "string \<Rightarrow> string" where
  "spec_first_rdn [] = []"
| "spec_first_rdn [c] = (if c = CHR '','' then [] else [c])"
| "spec_first_rdn (c # x # xs) =
     (if c = CHR '','' then []
      else if c = CHR 0x5C then c # x # spec_first_rdn xs
      else c # spec_first_rdn (x # xs))"

definition spec_pso_name :: "string \<Rightarrow> string" where
  "spec_pso_name dn = drop 3 (spec_first_rdn dn)"

subsection \<open>Directory entries\<close>

text \<open>
  An entry maps an attribute name to the values the directory returned for it. A Python
  value read from an entry is \<open>None\<close>, a string or a list of strings: \<open>attr_value\<close>
  is the \<^verbatim>\<open>.value\<close> of an attribute (\<open>None\<close> without values, the value itself when
  there is one, the list otherwise).
\<close>

type_synonym entry = "string \<rightharpoonup> string list"

datatype pyval = PNone | PStr string | PList "string list"

definition attr_value :: "string list \<Rightarrow> pyval" where
  "attr_value vs = (case vs of [] \<Rightarrow> PNone | [v] \<Rightarrow> PStr v | _ \<Rightarrow> PList vs)"

text \<open>\<^verbatim>\<open>entry[key]\<close> and \<^verbatim>\<open>entry.key\<close>: both raise when the entry has no such attribute.\<close>

definition getitem :: "entry \<Rightarrow> string \<Rightarrow> exn + string list" where
  "getitem e key = (case e key of None \<Rightarrow> Inl (LDAPKeyError key) | Some vs \<Rightarrow> Inr vs)"

definition getattr :: "entry \<Rightarrow> string \<Rightarrow> exn + string list" where
  "getattr e key = (case e key of None \<Rightarrow> Inl (LDAPCursorError key) | Some vs \<Rightarrow> Inr vs)"

text \<open>\<^verbatim>\<open>key in entry and entry[key]\<close>: the attribute is there and has at least one value.\<close>

definition present_nonempty :: "entry \<Rightarrow> string \<Rightarrow> bool" where
  "present_nonempty e key = (case e key of None \<Rightarrow> False | Some vs \<Rightarrow> vs \<noteq> [])"

text \<open>\<^verbatim>\<open>len(x)\<close>: \<open>None\<close> has no length.\<close>

definition py_len :: "pyval \<Rightarrow> exn + nat" where
  "py_len x = (case x of PNone \<Rightarrow> Inl TypeError | PStr s \<Rightarrow> Inr (length s) | PList vs \<Rightarrow> Inr (length vs))"

text \<open>\<^verbatim>\<open>f"{x:<{n}}"\<close>: a string is padded with spaces on the right; a list rejects the format.\<close>

definition ljust :: "nat \<Rightarrow> string \<Rightarrow> string" where
  "ljust n s = s @ replicate (n - length s) CHR '' ''"

definition format_left :: "nat \<Rightarrow> pyval \<Rightarrow> exn + string" where
  "format_left n x = (case x of PStr s \<Rightarrow> Inr (ljust n s) | _ \<Rightarrow> Inl TypeError)"

subsection \<open>The directory and the log of events\<close>

text \<open>
  What the script does to the outside is a log of events, oldest first: an attempt to
  open and bind a connection (endpoint, user, password, whether over SSL), a search on a
  connection (base, filter, attributes), the release of a connection, a printed line, and
  the line of the handler at the end of the main program, which prints the exception it
  caught. The directory
  and the Python runtime are a parameter: \<open>connect\<close> answers an attempt to open and
  bind a connection (a handle, or the exception raised), \<open>search\<close> answers a search (the
  entries, or the exception raised), \<open>unbind\<close> answers a release; each sees the log so
  far, so that the same request may be answered differently at different times.
  \<open>list_str\<close> is \<^verbatim>\<open>str\<close> of a list of strings and \<open>int_str\<close> is \<^verbatim>\<open>int\<close> of a string
  (\<open>None\<close> for \<open>ValueError\<close>).
\<close>

datatype event =
    Connect string string string bool
  | Search nat string string "string list"
  | Unbind nat
  | Print string
  | Report exn

record env =
  connect :: "event list \<Rightarrow> string \<Rightarrow> string \<Rightarrow> string \<Rightarrow> bool \<Rightarrow> exn + nat"
  search :: "event list \<Rightarrow> nat \<Rightarrow> string \<Rightarrow> string \<Rightarrow> string list \<Rightarrow> exn + entry list"
  unbind :: "event list \<Rightarrow> nat \<Rightarrow> exn option"
  list_str :: "string list \<Rightarrow> string"
  int_str :: "string \<Rightarrow> int option"

type_synonym 'a comp = "event list \<Rightarrow> (exn + 'a) \<times> event list"

definition ret :: "'a \<Rightarrow> 'a comp" where
  "ret x log = (Inr x, log)"

definition lift :: "exn + 'a \<Rightarrow> 'a comp" where
  "lift r log = (r, log)"

definition emit :: "event \<Rightarrow> unit comp" where
  "emit ev log = (Inr (), log @ [ev])"

definition bind :: "'a comp \<Rightarrow> ('a \<Rightarrow> 'b comp) \<Rightarrow> 'b comp" where
  "bind m f log = (case m log of (Inl err, log') \<Rightarrow> (Inl err, log') | (Inr x, log') \<Rightarrow> f x log')"

text \<open>\<^verbatim>\<open>str(x)\<close> of a value read from an entry, and \<^verbatim>\<open>str(attribute)\<close>.\<close>

definition py_str :: "env \<Rightarrow> pyval \<Rightarrow> string" where
  "py_str env x = (case x of PNone \<Rightarrow> ''None'' | PStr s \<Rightarrow> s | PList vs \<Rightarrow> list_str env vs)"

definition attr_str :: "env \<Rightarrow> string list \<Rightarrow> string" where
  "attr_str env vs = (case vs of [v] \<Rightarrow> v | _ \<Rightarrow> list_str env vs)"

text \<open>\<^verbatim>\<open>int(x)\<close> of a value read from an entry.\<close>

definition py_int :: "env \<Rightarrow> pyval \<Rightarrow> exn + int" where
  "py_int env x =
     (case x of
        PStr s \<Rightarrow> (case int_str env s of None \<Rightarrow> Inl ValueError | Some n \<Rightarrow> Inr n)
      | _ \<Rightarrow> Inl TypeError)"

subsection \<open>\<^verbatim>\<open>create_connection\<close> and the fallback from LDAP to LDAPS\<close>

text \<open>Lines 15 to 26.\<close>

definition create_connection :: "env \<Rightarrow> string \<Rightarrow> string \<Rightarrow> string \<Rightarrow> bool \<Rightarrow> nat option comp" where
  "create_connection env server_address user password use_ssl log =
     (let log' = log @ [Connect server_address user password use_ssl]
      in case connect env log server_address user password use_ssl of
           Inr conn \<Rightarrow> (Inr (Some conn), log')
         | Inl LDAPSocketOpenError \<Rightarrow>
             (Inr None, log' @ [Print (''Could not connect to '' @ server_address)])
         | Inl (LDAPBindError msg) \<Rightarrow>
             (Inr None, log' @ [Print (''Failed to bind to '' @ server_address @ '': '' @ msg)])
         | Inl err \<Rightarrow> (Inl err, log'))"

text \<open>
  Lines 29 to 37, which lines 82 to 90 and 135 to 143 repeat word for word: the
  principal, the two endpoints, the plaintext attempt and, when it gave no connection,
  the encrypted one. An absent or empty \<^verbatim>\<open>dc_ip\<close> falls back to the domain name.
\<close>

definition server_host :: "string \<Rightarrow> string option \<Rightarrow> string" where
  "server_host domain dc_ip =
     (case dc_ip of None \<Rightarrow> domain | Some ip \<Rightarrow> if ip = [] then domain else ip)"

definition logon_name :: "string \<Rightarrow> string \<Rightarrow> string" where
  "logon_name domain username = domain @ [CHR 0x5C] @ username"

definition server_address_ldap :: "string \<Rightarrow> string option \<Rightarrow> string" where
  "server_address_ldap domain dc_ip = server_host domain dc_ip @ '':389''"

definition server_address_ldaps :: "string \<Rightarrow> string option \<Rightarrow> string" where
  "server_address_ldaps domain dc_ip = server_host domain dc_ip @ '':636''"

definition trying_ldaps :: event where
  "trying_ldaps = Print ''LDAP on port 389 failed, trying LDAPS on port 636...''"

definition open_session :: "env \<Rightarrow> string \<Rightarrow> string \<Rightarrow> string \<Rightarrow> string option \<Rightarrow> nat option comp" where
  "open_session env username password domain dc_ip =
     bind (create_connection env (server_address_ldap domain dc_ip) (logon_name domain username)
             password False) (\<lambda>conn.
       case conn of
         Some c \<Rightarrow> ret (Some c)
       | None \<Rightarrow>
           bind (emit trying_ldaps) (\<lambda>_.
             create_connection env (server_address_ldaps domain dc_ip) (logon_name domain username)
               password True))"

definition both_failed :: "unit comp" where
  "both_failed = emit (Print ''Both LDAP and LDAPS connection attempts failed.'')"

text \<open>\<^verbatim>\<open>conn.search(...)\<close> and \<^verbatim>\<open>conn.unbind()\<close>.\<close>

definition do_search :: "env \<Rightarrow> nat \<Rightarrow> string \<Rightarrow> string \<Rightarrow> string list \<Rightarrow> entry list comp" where
  "do_search env c base flt attrs log = (search env log c base flt attrs, log @ [Search c base flt attrs])"

definition do_unbind :: "env \<Rightarrow> nat \<Rightarrow> unit comp" where
  "do_unbind env c log =
     (case unbind env log c of None \<Rightarrow> (Inr (), log @ [Unbind c]) | Some err \<Rightarrow> (Inl err, log @ [Unbind c]))"

subsection \<open>The tables of users and of groups\<close>

definition GREEN :: string where
  "GREEN = CHR 0x1B # ''[92m''"

definition BLUE :: string where
  "BLUE = CHR 0x1B # ''[94m''"

definition CYAN :: string where
  "CYAN = CHR 0x1B # ''[96m''"

definition RESET :: string where
  "RESET = CHR 0x1B # ''[0m''"

text \<open>
  Lines 57 to 59: the account name (\<^verbatim>\<open>'N/A'\<close> when the entry has none) and the policy
  name of one user entry. Lines 110 to 112: the same for a group, whose \<^verbatim>\<open>cn\<close> is read
  without a check.
\<close>

definition user_row :: "env \<Rightarrow> entry \<Rightarrow> exn + pyval \<times> string" where
  "user_row env e =
     (let sam_account_name =
            (case e ''sAMAccountName'' of None \<Rightarrow> PStr ''N/A'' | Some vs \<Rightarrow> attr_value vs)
      in case getitem e ''msDS-ResultantPSO'' of
           Inl err \<Rightarrow> Inl err
         | Inr vs \<Rightarrow>
             (case pso_name (attr_str env vs) of
                Inl err \<Rightarrow> Inl err
              | Inr name \<Rightarrow> Inr (sam_account_name, name)))"

definition group_row :: "env \<Rightarrow> entry \<Rightarrow> exn + pyval \<times> string" where
  "group_row env e =
     (case getattr e ''cn'' of
        Inl err \<Rightarrow> Inl err
      | Inr cn \<Rightarrow>
          (case getitem e ''msDS-PSOApplied'' of
             Inl err \<Rightarrow> Inl err
           | Inr vs \<Rightarrow>
               (case pso_name (attr_str env vs) of
                  Inl err \<Rightarrow> Inl err
                | Inr name \<Rightarrow> Inr (attr_value cn, name))))"

text \<open>
  The loops of lines 55 to 64 and 108 to 117, over the entries in the order of the
  search: the rows so far and the two column widths are the state; an exception ends
  the loop and the function.
\<close>

fun collect :: "(entry \<Rightarrow> exn + pyval \<times> string) \<Rightarrow> string \<Rightarrow> entry list
    \<Rightarrow> (pyval \<times> string) list \<times> nat \<times> nat \<Rightarrow> exn + (pyval \<times> string) list \<times> nat \<times> nat" where
  "collect row key [] st = Inr st"
| "collect row key (e # es) (results, max_name_length, max_pso_length) =
     (if present_nonempty e key
      then (case row e of
              Inl err \<Rightarrow> Inl err
            | Inr (name, pso) \<Rightarrow>
                (case py_len name of
                   Inl err \<Rightarrow> Inl err
                 | Inr n \<Rightarrow>
                     collect row key es
                       (results @ [(name, pso)], max max_name_length n, max max_pso_length (length pso))))
      else collect row key es (results, max_name_length, max_pso_length))"

text \<open>Lines 70 to 77 and 123 to 130: the header, the separator and one line for each row.\<close>

definition table_header :: "string \<Rightarrow> nat \<Rightarrow> nat \<Rightarrow> string" where
  "table_header title w1 w2 = ''| '' @ ljust w1 title @ '' | '' @ ljust w2 ''PSO'' @ '' |''"

definition table_separator :: "nat \<Rightarrow> nat \<Rightarrow> string" where
  "table_separator w1 w2 = ''| '' @ replicate w1 CHR ''-'' @ '' | '' @ replicate w2 CHR ''-'' @ '' |''"

definition table_row :: "nat \<Rightarrow> nat \<Rightarrow> pyval \<times> string \<Rightarrow> exn + string" where
  "table_row w1 w2 r =
     (case format_left w1 (fst r) of
        Inl err \<Rightarrow> Inl err
      | Inr name \<Rightarrow> Inr (''| '' @ GREEN @ name @ RESET @ '' | '' @ ljust w2 (snd r) @ '' |''))"

text \<open>Printing line after line: the first line that raises ends the printing.\<close>

fun print_lines :: "(exn + string) list \<Rightarrow> unit comp" where
  "print_lines [] log = (Inr (), log)"
| "print_lines (Inl err # ls) log = (Inl err, log)"
| "print_lines (Inr l # ls) log = print_lines ls (log @ [Print l])"

definition print_table :: "string \<Rightarrow> (pyval \<times> string) list \<times> nat \<times> nat \<Rightarrow> unit comp" where
  "print_table title st =
     (case st of (results, w1, w2) \<Rightarrow>
        print_lines (Inr (table_header title w1 w2) # Inr (table_separator w1 w2)
                     # map (table_row w1 w2) results))"

text \<open>Lines 51 to 77 and 104 to 130: the loop, then the table.\<close>

definition users_table :: "env \<Rightarrow> entry list \<Rightarrow> unit comp" where
  "users_table env entries =
     bind (lift (collect (user_row env) ''msDS-ResultantPSO'' entries ([], 5, 3))) (print_table ''Users'')"

definition groups_table :: "env \<Rightarrow> entry list \<Rightarrow> unit comp" where
  "groups_table env entries =
     bind (lift (collect (group_row env) ''msDS-PSOApplied'' entries ([], 6, 3))) (print_table ''Groups'')"

text \<open>Lines 28 to 79.\<close>

definition get_user_attributes :: "env \<Rightarrow> string \<Rightarrow> string \<Rightarrow> string \<Rightarrow> string option \<Rightarrow> unit comp" where
  "get_user_attributes env username password domain dc_ip =
     bind (open_session env username password domain dc_ip) (\<lambda>conn.
       case conn of
         None \<Rightarrow> both_failed
       | Some c \<Rightarrow>
           bind (do_search env c (search_base_of domain) ''(objectClass=user)''
                   [''sAMAccountName'', ''msDS-ResultantPSO'']) (\<lambda>entries.
           bind (users_table env entries) (\<lambda>_.
           do_unbind env c)))"

text \<open>Lines 81 to 132.\<close>

definition get_group_pso :: "env \<Rightarrow> string \<Rightarrow> string \<Rightarrow> string \<Rightarrow> string option \<Rightarrow> unit comp" where
  "get_group_pso env username password domain dc_ip =
     bind (open_session env username password domain dc_ip) (\<lambda>conn.
       case conn of
         None \<Rightarrow> both_failed
       | Some c \<Rightarrow>
           bind (do_search env c (search_base_of domain) ''(objectClass=group)''
                   [''cn'', ''msDS-PSOApplied'']) (\<lambda>entries.
           bind (groups_table env entries) (\<lambda>_.
           do_unbind env c)))"

subsection \<open>The details of the policies\<close>

text \<open>
  Lines 169, 172 to 174, 177, 180 and 181: a line that reads its attribute without a
  check. Lines 175, 176, 178 and 179: a line that decodes an interval when the entry
  has the attribute and says \<^verbatim>\<open>N/A\<close> otherwise.
\<close>

definition plain_line :: "env \<Rightarrow> entry \<Rightarrow> string \<Rightarrow> string \<Rightarrow> string \<Rightarrow> string \<Rightarrow> exn + string" where
  "plain_line env e label before key after =
     (case getitem e key of
        Inl err \<Rightarrow> Inl err
      | Inr vs \<Rightarrow> Inr (label @ before @ py_str env (attr_value vs) @ after))"

definition interval_line :: "env \<Rightarrow> entry \<Rightarrow> string \<Rightarrow> string \<Rightarrow> exn + string" where
  "interval_line env e label key =
     (case e key of
        None \<Rightarrow> Inr (label @ ''N/A'')
      | Some vs \<Rightarrow>
          (case py_int env (attr_value vs) of
             Inl err \<Rightarrow> Inl err
           | Inr nano \<Rightarrow>
               (case clock nano of
                  Inl err \<Rightarrow> Inl err
                | Inr text \<Rightarrow> Inr (label @ text))))"

text \<open>Lines 169 to 185: the lines of one policy, in the order they are printed.\<close>

definition entry_lines :: "env \<Rightarrow> entry \<Rightarrow> (exn + string) list" where
  "entry_lines env e =
     [plain_line env e ''Policy Name: '' BLUE ''name'' RESET]
     @ (case e ''description'' of
          None \<Rightarrow> []
        | Some vs \<Rightarrow> [Inr (''Description: '' @ py_str env (attr_value vs))])
     @ [plain_line env e ''Minimum Password Length: '' CYAN ''msds-minimumpasswordlength'' RESET,
        plain_line env e ''Password History Length: '' CYAN ''msds-passwordhistorylength'' RESET,
        plain_line env e ''Lockout Threshold: '' CYAN ''msds-lockoutthreshold'' RESET,
        interval_line env e ''Observation Window: '' ''msds-lockoutobservationwindow'',
        interval_line env e ''Lockout Duration: '' ''msds-lockoutduration'',
        plain_line env e ''Complexity Enabled: '' [] ''msds-passwordcomplexityenabled'' [],
        interval_line env e ''Minimum Password Age: '' ''msds-minimumpasswordage'',
        interval_line env e ''Maximum Password Age: '' ''msds-maximumpasswordage'',
        plain_line env e ''Reversible Encryption: '' [] ''msds-passwordreversibleencryptionenabled'' [],
        plain_line env e ''Precedence: '' CYAN ''msds-passwordsettingsprecedence'' RESET]
     @ (case e ''msds-psoappliesto'' of
          None \<Rightarrow> []
        | Some dns \<Rightarrow> map (\<lambda>dn. Inr (''Policy Applies to: '' @ dn)) dns)
     @ [Inr []]"

definition password_settings_base :: "string \<Rightarrow> string" where
  "password_settings_base domain = ''CN=Password Settings Container,CN=System,'' @ base_creator domain"

definition pso_attributes :: "string list" where
  "pso_attributes =
     [''name'', ''msds-lockoutthreshold'', ''msds-psoappliesto'', ''msds-minimumpasswordlength'',
      ''msds-passwordhistorylength'', ''msds-lockoutobservationwindow'', ''msds-lockoutduration'',
      ''msds-passwordsettingsprecedence'', ''msds-passwordcomplexityenabled'', ''description'',
      ''msds-passwordreversibleencryptionenabled'', ''msds-minimumpasswordage'',
      ''msds-maximumpasswordage'']"

text \<open>Lines 162 to 187.\<close>

definition print_details :: "env \<Rightarrow> entry list \<Rightarrow> unit comp" where
  "print_details env entries =
     (if 0 < length entries
      then print_lines (concat (map (entry_lines env) entries))
      else emit (Print ''Could not enumerate details, you likely do not have the privileges to do so!''))"

text \<open>Lines 134 to 189.\<close>

definition get_pso_details :: "env \<Rightarrow> string \<Rightarrow> string \<Rightarrow> string \<Rightarrow> string option \<Rightarrow> unit comp" where
  "get_pso_details env username password domain dc_ip =
     bind (open_session env username password domain dc_ip) (\<lambda>conn.
       case conn of
         None \<Rightarrow> both_failed
       | Some c \<Rightarrow>
           bind (do_search env c (password_settings_base domain) ''(objectclass=msDS-PasswordSettings)''
                   pso_attributes) (\<lambda>entries.
           bind (print_details env entries) (\<lambda>_.
           do_unbind env c)))"

subsection \<open>The main program\<close>

text \<open>
  Lines 202 to 212, after the arguments are parsed: the three queries in turn, the last
  one inside \<^verbatim>\<open>try\<close> ... \<^verbatim>\<open>except Exception\<close>, whose handler prints the exception.
\<close>

definition catch :: "unit comp \<Rightarrow> (exn \<Rightarrow> unit comp) \<Rightarrow> unit comp" where
  "catch m h log = (case m log of (Inl err, log') \<Rightarrow> h err log' | (Inr x, log') \<Rightarrow> (Inr x, log'))"

definition main :: "env \<Rightarrow> string \<Rightarrow> string \<Rightarrow> string \<Rightarrow> string \<Rightarrow> unit comp" where
  "main env username password domain dc_ip =
     bind (emit (Print ''Groups with PSO applied:'')) (\<lambda>_.
     bind (get_group_pso env username password domain (Some dc_ip)) (\<lambda>_.
     bind (emit (Print (CHR 0x0A # ''Users with PSO applied:''))) (\<lambda>_.
     bind (get_user_attributes env username password domain (Some dc_ip)) (\<lambda>_.
     bind (emit (Print (CHR 0x0A # ''PSO Details:''))) (\<lambda>_.
     catch (get_pso_details env username password domain (Some dc_ip)) (\<lambda>err. emit (Report err)))))))"

subsection \<open>Notions used to state the properties\<close>

text \<open>
  A failed attempt that \<^verbatim>\<open>create_connection\<close> handles: the socket could not be opened,
  or the bind was rejected.
\<close>

fun handled_failure :: "exn + nat \<Rightarrow> bool" where
  "handled_failure (Inl LDAPSocketOpenError) = True"
| "handled_failure (Inl (LDAPBindError msg)) = True"
| "handled_failure r = False"

text \<open>The log at the moment the encrypted attempt is made, after the plaintext one.\<close>

definition fallback_log :: "env \<Rightarrow> string \<Rightarrow> string \<Rightarrow> string \<Rightarrow> string option \<Rightarrow> event list \<Rightarrow> event list" where
  "fallback_log env username password domain dc_ip log =
     snd (create_connection env (server_address_ldap domain dc_ip) (logon_name domain username)
            password False log)
     @ [trying_ldaps]"

text \<open>The encrypted attempts of a log, oldest first: endpoint, principal and password.\<close>

definition ssl_attempts :: "event list \<Rightarrow> (string \<times> string \<times> string) list" where
  "ssl_attempts log =
     concat (map (\<lambda>ev. case ev of Connect a u p True \<Rightarrow> [(a, u, p)] | _ \<Rightarrow> []) log)"

text \<open>
  The log when the query for users starts, and when the query for the policies starts,
  in a run of the main program.
\<close>

definition users_start :: "env \<Rightarrow> string \<Rightarrow> string \<Rightarrow> string \<Rightarrow> string \<Rightarrow> event list \<Rightarrow> event list" where
  "users_start env username password domain dc_ip log =
     snd (get_group_pso env username password domain (Some dc_ip)
            (log @ [Print ''Groups with PSO applied:'']))
     @ [Print (CHR 0x0A # ''Users with PSO applied:'')]"

definition details_start :: "env \<Rightarrow> string \<Rightarrow> string \<Rightarrow> string \<Rightarrow> string \<Rightarrow> event list \<Rightarrow> event list" where
  "details_start env username password domain dc_ip log =
     snd (get_user_attributes env username password domain (Some dc_ip)
            (users_start env username password domain dc_ip log))
     @ [Print (CHR 0x0A # ''PSO Details:'')]"

subsection \<open>Directories to try the script on\<close>

text \<open>
  A few entries, a directory that cannot be reached, and a directory that accepts every
  bind and answers the three searches with the groups, users and policies it is given.
  Neither renders a list nor reads an integer out of a string: the entries below need
  neither. The connection of the script is opened with its defaults, under which an
  attribute that a search asked for and the directory did not send is on the entry all
  the same, without a value: \<open>user_bob\<close> has no resultant policy, \<open>user_unnamed\<close>
  no account name, and \<open>policy_sparse\<close> neither a description, nor any of the four
  intervals, nor an object it applies to.
\<close>

definition strict_dn :: string where
  "strict_dn = ''CN=StrictPolicy,CN=Password Settings Container,CN=System,DC=corp,DC=local''"

definition user_alice :: entry where
  "user_alice = [''sAMAccountName'' \<mapsto> [''alice''], ''msDS-ResultantPSO'' \<mapsto> [strict_dn]]"

definition user_bob :: entry where
  "user_bob = [''sAMAccountName'' \<mapsto> [''bob''], ''msDS-ResultantPSO'' \<mapsto> []]"

definition user_mallory :: entry where
  "user_mallory = [''sAMAccountName'' \<mapsto> [''mallory''], ''msDS-ResultantPSO'' \<mapsto> [''StrictPolicy'']]"

definition user_unnamed :: entry where
  "user_unnamed = [''sAMAccountName'' \<mapsto> [], ''msDS-ResultantPSO'' \<mapsto> [strict_dn]]"

definition group_admins :: entry where
  "group_admins = [''cn'' \<mapsto> [''Admins''], ''msDS-PSOApplied'' \<mapsto> [strict_dn]]"

definition group_broken :: entry where
  "group_broken = [''cn'' \<mapsto> [''Guests''], ''msDS-PSOApplied'' \<mapsto> [''StrictPolicy'']]"

definition policy_sparse :: entry where
  "policy_sparse =
     [''name'' \<mapsto> [''StrictPolicy''],
      ''msds-lockoutthreshold'' \<mapsto> [''5''],
      ''msds-psoappliesto'' \<mapsto> [],
      ''msds-minimumpasswordlength'' \<mapsto> [''14''],
      ''msds-passwordhistorylength'' \<mapsto> [''24''],
      ''msds-lockoutobservationwindow'' \<mapsto> [],
      ''msds-lockoutduration'' \<mapsto> [],
      ''msds-passwordsettingsprecedence'' \<mapsto> [''10''],
      ''msds-passwordcomplexityenabled'' \<mapsto> [''True''],
      ''description'' \<mapsto> [],
      ''msds-passwordreversibleencryptionenabled'' \<mapsto> [''False''],
      ''msds-minimumpasswordage'' \<mapsto> [],
      ''msds-maximumpasswordage'' \<mapsto> []]"

definition env_unreachable :: env where
  "env_unreachable =
     \<lparr>connect = (\<lambda>log a u p s. Inl LDAPSocketOpenError),
      search = (\<lambda>log c base flt attrs. Inr []),
      unbind = (\<lambda>log c. None),
      list_str = (\<lambda>vs. []),
      int_str = (\<lambda>s. None)\<rparr>"

definition env_directory :: "entry list \<Rightarrow> entry list \<Rightarrow> entry list \<Rightarrow> env" where
  "env_directory groups users policies =
     \<lparr>connect = (\<lambda>log a u p s. Inr 1),
      search = (\<lambda>log c base flt attrs.
        if flt = ''(objectClass=group)'' then Inr groups
        else if flt = ''(objectClass=user)'' then Inr users
        else Inr policies),
      unbind = (\<lambda>log c. None),
      list_str = (\<lambda>vs. []),
      int_str = (\<lambda>s. None)\<rparr>"

section \<open>Properties\<close>

subsection \<open>Splitting and joining\<close>

declare split_from.simps [simp del]

lemma split_from_Nil: "split_from sep cur [] = [rev cur]"
  by (simp add: split_from.simps)

lemma split_from_char_Cons:
  "split_from [c] cur (x # xs) =
     (if x = c then rev cur # split_from [c] [] xs else split_from [c] (x # cur) xs)"
  by (subst split_from.simps) simp

lemma split_from_char_no_sep:
  "c \<notin> set p \<Longrightarrow> split_from [c] cur p = [rev cur @ p]"
  by (induction p arbitrary: cur) (auto simp add: split_from_Nil split_from_char_Cons)

lemma split_from_char_sep:
  "c \<notin> set p \<Longrightarrow> split_from [c] cur (p @ c # rest) = (rev cur @ p) # split_from [c] [] rest"
  by (induction p arbitrary: cur) (auto simp add: split_from_char_Cons)

lemma split_from_char_hd:
  "hd (split_from [c] cur s) = rev cur @ takeWhile (\<lambda>x. x \<noteq> c) s"
  by (induction s arbitrary: cur) (simp_all add: split_from_Nil split_from_char_Cons)

lemma split_from_ne: "split_from [c] cur s \<noteq> []"
  by (induction s arbitrary: cur) (simp_all add: split_from_Nil split_from_char_Cons)

lemma split_from_char_length:
  "(2 \<le> length (split_from [c] cur s)) = (c \<in> set s)"
proof (induction s arbitrary: cur)
  case Nil
  show ?case by (simp add: split_from_Nil)
next
  case (Cons x xs)
  show ?case
    using split_from_ne [of c "[]" xs]
    by (cases "split_from [c] [] xs") (simp_all add: split_from_char_Cons Cons.IH)
qed

lemma py_join_Cons: "ps \<noteq> [] \<Longrightarrow> py_join sep (p # ps) = p @ sep @ py_join sep ps"
  by (cases ps) simp_all

lemma py_join_split_from: "py_join [c] (split_from [c] cur s) = rev cur @ s"
  by (induction s arbitrary: cur)
     (simp_all add: split_from_Nil split_from_char_Cons py_join_Cons split_from_ne)

text \<open>Joining the labels of a name with dots gives the name back, whatever the name.\<close>

lemma py_join_py_split: "py_join ''.'' (py_split d ''.'') = d"
  by (simp add: py_split_def py_join_split_from)

lemma py_split_py_join:
  "ls \<noteq> [] \<Longrightarrow> \<forall>l \<in> set ls. c \<notin> set l \<Longrightarrow> split_from [c] [] (py_join [c] ls) = ls"
proof (induction ls)
  case Nil
  then show ?case by simp
next
  case (Cons l ls)
  show ?case
  proof (cases ls)
    case Nil
    with Cons.prems show ?thesis by (simp add: split_from_char_no_sep)
  next
    case (Cons l' ls')
    with Cons.prems Cons.IH show ?thesis
      using split_from_char_sep [of c l "[]" "py_join [c] ls"] by simp
  qed
qed

lemma join_prefixed:
  "ps \<noteq> [] \<Longrightarrow> py_join sep (map (\<lambda>part. pre @ part) ps) = pre @ py_join (sep @ pre) ps"
proof (induction ps)
  case Nil
  then show ?case by simp
next
  case (Cons p ps)
  then show ?case by (cases ps) simp_all
qed

text \<open>The two ways the script writes the search base agree.\<close>

lemma base_creator_search_base: "base_creator d = search_base_of d"
  using join_prefixed [of "py_split d ''.''" "'',''" "''DC=''"]
  by (simp add: base_creator_def search_base_of_def py_split_def split_from_ne)

lemma split_from_DC_Cons:
  "split_from '',DC='' cur (x # xs) =
     (if take 4 (x # xs) = '',DC='' then rev cur # split_from '',DC='' [] (drop 4 (x # xs))
      else split_from '',DC='' (x # cur) xs)"
  by (subst split_from.simps) (simp add: eval_nat_numeral)

text \<open>
  A separator cannot begin inside a label that does not contain it and end in the
  separator that follows: its comma stands at its first place only.
\<close>

lemma no_straddle:
  assumes "\<not> occurs_in '',DC='' (x # xs)"
  shows "take 4 (x # xs @ '',DC='' @ rest) \<noteq> '',DC=''"
proof
  assume a: "take 4 (x # xs @ '',DC='' @ rest) = '',DC=''"
  have n: "take 4 (x # xs) \<noteq> '',DC=''"
    using assms by (simp add: eval_nat_numeral)
  show False
  proof (cases xs)
    case Nil
    with a show False by (simp add: eval_nat_numeral)
  next
    case (Cons a1 xs1)
    note c1 = this
    show False
    proof (cases xs1)
      case Nil
      with c1 a show False by (simp add: eval_nat_numeral)
    next
      case (Cons a2 xs2)
      note c2 = this
      show False
      proof (cases xs2)
        case Nil
        with c1 c2 a show False by (simp add: eval_nat_numeral)
      next
        case (Cons a3 xs3)
        with c1 c2 a n show False by (simp add: eval_nat_numeral)
      qed
    qed
  qed
qed

lemma split_from_DC_no_sep:
  "\<not> occurs_in '',DC='' l \<Longrightarrow> split_from '',DC='' cur l = [rev cur @ l]"
  by (induction l arbitrary: cur)
     (simp_all add: split_from_Nil split_from_DC_Cons eval_nat_numeral)

lemma split_from_DC_sep:
  "\<not> occurs_in '',DC='' l \<Longrightarrow>
   split_from '',DC='' cur (l @ '',DC='' @ rest) = (rev cur @ l) # split_from '',DC='' [] rest"
proof (induction l arbitrary: cur)
  case Nil
  show ?case by (simp add: split_from_DC_Cons eval_nat_numeral)
next
  case (Cons x xs)
  from Cons.prems have "\<not> occurs_in '',DC='' xs" by simp
  then have IH: "split_from '',DC='' (x # cur) (xs @ '',DC='' @ rest)
      = (rev (x # cur) @ xs) # split_from '',DC='' [] rest"
    by (rule Cons.IH)
  have "take 4 (x # xs @ '',DC='' @ rest) \<noteq> '',DC=''"
    using Cons.prems by (rule no_straddle)
  then have "split_from '',DC='' cur (x # xs @ '',DC='' @ rest)
      = split_from '',DC='' (x # cur) (xs @ '',DC='' @ rest)"
    by (subst split_from_DC_Cons) (simp only: if_False)
  with IH show ?case
    by (simp only: append_Cons rev.simps append_assoc append_Nil)
qed

lemma split_DC_join:
  "ls \<noteq> [] \<Longrightarrow> \<forall>l \<in> set ls. \<not> occurs_in '',DC='' l \<Longrightarrow>
   split_from '',DC='' [] (py_join '',DC='' ls) = ls"
proof (induction ls)
  case Nil
  then show ?case by simp
next
  case (Cons l ls)
  show ?case
  proof (cases ls)
    case Nil
    with Cons.prems show ?thesis by (simp add: split_from_DC_no_sep)
  next
    case (Cons l' ls')
    with Cons.prems Cons.IH show ?thesis
      using split_from_DC_sep [of l "[]" "py_join '',DC='' ls"] by simp
  qed
qed

text \<open>The pieces of a split are made of characters of the string, the separator not among them.\<close>

lemma split_from_pieces:
  "\<forall>l \<in> set (split_from [c] cur s). set l \<subseteq> set cur \<union> set s"
proof (induction s arbitrary: cur)
  case Nil
  show ?case by (simp add: split_from_Nil)
next
  case (Cons a s)
  from Cons.IH [of "[]"]
  have 1: "\<forall>l \<in> set (split_from [c] [] s). set l \<subseteq> insert a (set cur \<union> set s)"
    by auto
  from Cons.IH [of "a # cur"]
  have 2: "\<forall>l \<in> set (split_from [c] (a # cur) s). set l \<subseteq> insert a (set cur \<union> set s)"
    by auto
  have 3: "set cur \<subseteq> insert a (set cur \<union> set s)" by auto
  show ?case
  proof (cases "a = c")
    case True
    with 1 3 show ?thesis by (simp add: split_from_char_Cons)
  next
    case False
    with 2 show ?thesis by (simp add: split_from_char_Cons)
  qed
qed

lemma split_from_pieces_free:
  "c \<notin> set cur \<Longrightarrow> \<forall>l \<in> set (split_from [c] cur s). c \<notin> set l"
proof (induction s arbitrary: cur)
  case Nil
  then show ?case by (simp add: split_from_Nil)
next
  case (Cons a s)
  from Cons.IH [of "[]"] have "\<forall>l \<in> set (split_from [c] [] s). c \<notin> set l" by simp
  moreover from Cons.IH [of "a # cur"] Cons.prems
  have "a \<noteq> c \<Longrightarrow> \<forall>l \<in> set (split_from [c] (a # cur) s). c \<notin> set l" by simp
  ultimately show ?case using Cons.prems by (simp add: split_from_char_Cons)
qed

lemma comma_free_labels:
  assumes "CHR '','' \<notin> set d"
  shows "\<forall>l \<in> set (py_split d ''.''). CHR ''.'' \<notin> set l \<and> CHR '','' \<notin> set l"
  using split_from_pieces [of "CHR ''.''" "[]" d] split_from_pieces_free [of "CHR ''.''" "[]" d] assms
  by (auto simp add: py_split_def)

lemma occurs_in_first: "occurs_in (x # sep) l \<Longrightarrow> x \<in> set l"
  by (induction l) auto

subsection \<open>The search base\<close>

lemma base_of_labels:
  assumes "ls \<noteq> []" and "\<forall>l \<in> set ls. CHR ''.'' \<notin> set l"
  shows "base_creator (py_join ''.'' ls) = py_join '','' (map (\<lambda>l. ''DC='' @ l) ls)"
proof -
  have "py_split (py_join ''.'' ls) ''.'' = ls"
    using assms by (simp add: py_split_def py_split_py_join)
  then show ?thesis by (simp add: base_creator_def)
qed

text \<open>
  Reading the labels back out of a base needs only that no label contains the text
  \<^verbatim>\<open>,DC=\<close>; a label without a comma is such.
\<close>

lemma labels_of_base:
  assumes "ls \<noteq> []" and "\<forall>l \<in> set ls. \<not> occurs_in '',DC='' l"
  shows "spec_base_labels (py_join '','' (map (\<lambda>l. ''DC='' @ l) ls)) = ls"
proof -
  have "py_join '','' (map (\<lambda>l. ''DC='' @ l) ls) = ''DC='' @ py_join '',DC='' ls"
    using join_prefixed [of ls "'',''" "''DC=''"] assms(1) by simp
  then show ?thesis
    using assms by (simp add: spec_base_labels_def py_split_def split_DC_join)
qed

text \<open>
  Claim C3. For labels \<open>[a, b, c, ...]\<close> without dots (at least one: a name always has
  a label), the search base of the name \<open>a.b.c...\<close> is \<open>DC=a,DC=b,DC=c,...\<close>, by
  \<^verbatim>\<open>base_creator\<close> and by the inline expression of lines 43 and 96 alike. A domain name has no comma in it (its labels are made of
  letters, digits and hyphens): when the labels have none, splitting that base at
  \<^verbatim>\<open>,DC=\<close> after its leading \<^verbatim>\<open>DC=\<close> and joining the pieces with dots gives the name back.
  The round trip is stated a second time on the name itself: every name \<open>d\<close> without a
  comma is read back out of its base.
\<close>

theorem search_base_roundtrip:
  assumes "ls \<noteq> []" and "\<forall>l \<in> set ls. CHR ''.'' \<notin> set l"
  shows "base_creator (py_join ''.'' ls) = py_join '','' (map (\<lambda>l. ''DC='' @ l) ls)
       \<and> search_base_of (py_join ''.'' ls) = py_join '','' (map (\<lambda>l. ''DC='' @ l) ls)
       \<and> ((\<forall>l \<in> set ls. CHR '','' \<notin> set l) \<longrightarrow>
            spec_domain_of_base (base_creator (py_join ''.'' ls)) = py_join ''.'' ls
          \<and> spec_domain_of_base (search_base_of (py_join ''.'' ls)) = py_join ''.'' ls)
       \<and> (CHR '','' \<notin> set d \<longrightarrow>
            spec_domain_of_base (base_creator d) = d \<and> spec_domain_of_base (search_base_of d) = d)"
proof (intro conjI impI)
  show b: "base_creator (py_join ''.'' ls) = py_join '','' (map (\<lambda>l. ''DC='' @ l) ls)"
    using assms by (rule base_of_labels)
  then show "search_base_of (py_join ''.'' ls) = py_join '','' (map (\<lambda>l. ''DC='' @ l) ls)"
    by (simp add: base_creator_search_base)
  {
    assume "\<forall>l \<in> set ls. CHR '','' \<notin> set l"
    then have "\<forall>l \<in> set ls. \<not> occurs_in '',DC='' l"
      using occurs_in_first by blast
    from labels_of_base [OF assms(1) this] b
    show r: "spec_domain_of_base (base_creator (py_join ''.'' ls)) = py_join ''.'' ls"
      by (simp add: spec_domain_of_base_def)
    then show "spec_domain_of_base (search_base_of (py_join ''.'' ls)) = py_join ''.'' ls"
      by (simp add: base_creator_search_base)
  }
  {
    assume c: "CHR '','' \<notin> set d"
    let ?ls = "py_split d ''.''"
    have ne: "?ls \<noteq> []" by (simp add: py_split_def split_from_ne)
    from comma_free_labels [OF c] have "\<forall>l \<in> set ?ls. \<not> occurs_in '',DC='' l"
      using occurs_in_first by blast
    from labels_of_base [OF ne this]
    show r: "spec_domain_of_base (base_creator d) = d"
      by (simp add: spec_domain_of_base_def base_creator_def py_join_py_split)
    then show "spec_domain_of_base (search_base_of d) = d"
      by (simp add: base_creator_search_base)
  }
qed

theorem search_base_roundtrip_witness:
  "base_creator ''corp.local'' = ''DC=corp,DC=local''
   \<and> search_base_of ''corp.local'' = ''DC=corp,DC=local''
   \<and> spec_domain_of_base (base_creator ''corp.local'') = ''corp.local''
   \<and> spec_domain_of_base (search_base_of ''corp.local'') = ''corp.local''
   \<and> spec_domain_of_base (base_creator ''ad.example.com'') = ''ad.example.com''
   \<and> spec_domain_of_base (search_base_of ''ad.example.com'') = ''ad.example.com''"
proof -
  have a: "[''corp'', ''local''] \<noteq> []" by simp
  have b: "\<forall>l \<in> set [''corp'', ''local'']. CHR ''.'' \<notin> set l" by simp
  show ?thesis
    using search_base_roundtrip [OF a b, of "''ad.example.com''"] by auto
qed

subsection \<open>The interval decoder\<close>

text \<open>
  The examples of the specification, and the sentinel of an interval that never ends
  (\<open>- 2 ^ 63\<close>): on these the decoder agrees with the specification's wording.
\<close>

lemma clock_zero: "clock 0 = Inr ''0 days 0 hours 0 minutes 0 seconds''"
  by code_simp

lemma clock_one_minute: "clock (- 600000000) = Inr ''0 days 0 hours 1 minutes 0 seconds''"
  by code_simp

lemma clock_one_day: "clock (- 864000000000) = Inr ''1 days 0 hours 0 minutes 0 seconds''"
  by code_simp

lemma clock_never:
  "clock (- 9223372036854775808) = Inr ''10675199 days 2 hours 48 minutes 5 seconds''
   \<and> spec_decodeInterval (- 9223372036854775808) = ''10675199 days 2 hours 48 minutes 5 seconds''"
  by code_simp

text \<open>
  Below \<open>2 ^ 30\<close> seconds the rounding of the division never reaches the next whole
  number, and the decoder is the specification's: the carrying of \<^verbatim>\<open>relativedelta\<close> is
  the flat decomposition, and the truncated quotient is the integer quotient.
\<close>

declare bit_length.simps [simp del]

declare str_digits.simps [simp del]

lemma rd_carry_nonneg:
  "0 \<le> low \<Longrightarrow> 0 < limit \<Longrightarrow> rd_carry limit low 0 = (low mod (limit + 1), low div (limit + 1))"
  by (auto simp add: rd_carry_def rd_sign_def Let_def)

lemma rd_nonneg:
  assumes "0 \<le> sec"
  shows "rd sec = \<lparr>days = sec div 86400, hours = (sec mod 86400) div 3600,
                   minutes = (sec mod 3600) div 60, seconds = sec mod 60\<rparr>"
proof -
  have 1: "rd_carry 59 sec 0 = (sec mod 60, sec div 60)"
    using assms rd_carry_nonneg [of sec 59] by simp
  have 2: "rd_carry 59 (sec div 60) 0 = (sec div 60 mod 60, sec div 60 div 60)"
    using assms rd_carry_nonneg [of "sec div 60" 59] by simp
  have 3: "rd_carry 23 (sec div 60 div 60) 0 = (sec div 60 div 60 mod 24, sec div 60 div 60 div 24)"
    using assms rd_carry_nonneg [of "sec div 60 div 60" 23] by simp
  have a: "sec div 60 div 60 div 24 = sec div 86400"
    using zdiv_zmult2_eq [of 60 sec 60] zdiv_zmult2_eq [of 24 sec 3600] by simp
  have b: "sec div 60 div 60 mod 24 = (sec mod 86400) div 3600"
    using zdiv_zmult2_eq [of 60 sec 60] zmod_zmult2_eq [of 24 sec 3600] by simp
  have c: "sec div 60 mod 60 = (sec mod 3600) div 60"
    using zmod_zmult2_eq [of 60 sec 60] by simp
  show ?thesis
    by (simp add: rd_def 1 2 3 a b c)
qed

lemma fmt_rd:
  "0 \<le> sec \<Longrightarrow>
   fmt (rd sec) = str_int (sec div 86400) @ '' days '' @ str_int ((sec mod 86400) div 3600) @ '' hours ''
         @ str_int ((sec mod 3600) div 60) @ '' minutes '' @ str_int (sec mod 60) @ '' seconds''"
  by (simp add: rd_nonneg fmt_def)

lemma bit_length_le: "n < 2 ^ j \<Longrightarrow> bit_length n \<le> int j"
proof (induction j arbitrary: n)
  case 0
  then show ?case by (subst bit_length.simps) simp
next
  case (Suc j)
  show ?case
  proof (cases "n \<le> 0")
    case True
    then show ?thesis by (subst bit_length.simps) simp
  next
    case False
    from Suc.prems have "n div 2 < 2 ^ j" by simp
    from Suc.IH [OF this] False show ?thesis by (subst bit_length.simps) simp
  qed
qed

lemma bit_length_ticks: "bit_length 10000000 = 24"
  by code_simp

lemma round_half_even_bounds:
  assumes "0 \<le> n" "0 < d"
  shows "2 * d * round_half_even n d \<le> 2 * n + d" and "2 * n \<le> 2 * d * round_half_even n d + d"
proof -
  define q r where "q = n div d" and "r = n mod d"
  have e: "n = d * q + r" by (simp add: q_def r_def)
  have m: "0 \<le> r" "r < d" using assms by (simp_all add: r_def)
  have rr: "round_half_even n d = (if 2 * r < d then q else if d < 2 * r then q + 1 else if even q then q else q + 1)"
    by (simp add: round_half_even_def Let_def q_def r_def)
  have "2 * d * round_half_even n d \<le> 2 * (d * q + r) + d"
    unfolding rr using m by (auto simp add: algebra_simps)
  then show "2 * d * round_half_even n d \<le> 2 * n + d"
    using e by simp
  have "2 * (d * q + r) \<le> 2 * d * round_half_even n d + d"
    unfolding rr using m by (auto simp add: algebra_simps)
  then show "2 * n \<le> 2 * d * round_half_even n d + d"
    using e by simp
qed


lemma clock_seconds_exact:
  assumes "t \<noteq> 0" and "\<bar>t\<bar> < 10737418240000000"
  shows "clock_seconds t = Inr (\<bar>t\<bar> div 10000000)"
proof -
  define a where "a = \<bar>t\<bar>"
  define b :: int where "b = 10000000"
  have a: "0 < a" "a < 2 ^ 30 * b" using assms by (simp_all add: a_def b_def)
  have b: "0 < b" by (simp add: b_def)
  define d where "d = bit_length a - bit_length b"
  define fl where "fl = (if b * 2 ^ nat d \<le> a * 2 ^ nat (- d) then d else d - 1)"
  define e where "e = max (fl - 52) (- 1074)"
  define k where "k = nat (- e)"
  define m where "m = round_half_even (a * 2 ^ k) b"
  have "a < 2 ^ 54" using a by (simp add: b_def)
  from bit_length_le [OF this] have "d \<le> 30"
    by (simp add: d_def b_def bit_length_ticks)
  have "fl \<le> 29"
  proof (cases "d = 30")
    case True
    with a have "\<not> b * 2 ^ nat d \<le> a * 2 ^ nat (- d)" by (simp add: mult.commute)
    with True show ?thesis by (simp add: fl_def)
  next
    case False
    with \<open>d \<le> 30\<close> show ?thesis by (simp add: fl_def)
  qed
  then have e: "e \<le> - 23" by (simp add: e_def)
  then have k: "23 \<le> k" "e = - int k" "nat e = 0" by (simp_all add: k_def)
  have p: "(2::int) ^ 23 \<le> 2 ^ k" using k(1) by (intro power_increasing) simp_all
  define q r where "q = a div b" and "r = a mod b"
  have ab: "a = b * q + r" by (simp add: q_def r_def)
  have r: "0 \<le> r" "r \<le> b - 1" using b by (simp_all add: r_def)
  have q0: "0 \<le> q" using a b by (simp add: q_def pos_imp_zdiv_nonneg_iff)
  have q1: "q < 2 ^ 30"
  proof (rule ccontr)
    assume "\<not> q < 2 ^ 30"
    then have "b * 2 ^ 30 \<le> b * q" using b by (intro mult_left_mono) simp_all
    with r(1) a(2) show False by (simp add: ab)
  qed
  note q = q0 q1
  define P :: int where "P = 2 ^ k"
  have P: "2 ^ 23 \<le> P" using p by (simp add: P_def)
  define A R M where "A = b * (q * P)" and "R = r * P" and "M = b * m"
  have X: "a * 2 ^ k = A + R" by (simp add: ab A_def R_def P_def algebra_simps)
  have R0: "0 \<le> R" using r P by (simp add: R_def)
  have X0: "0 \<le> a * 2 ^ k" using a by simp
  from round_half_even_bounds [OF X0 b]
  have up: "2 * M \<le> 2 * (A + R) + b" and lo: "2 * (A + R) \<le> 2 * M + b"
    by (simp_all add: m_def M_def X)
  have lower: "q * P \<le> m"
  proof (rule ccontr)
    assume "\<not> q * P \<le> m"
    then have "m + 1 \<le> q * P" by simp
    then have "b * (m + 1) \<le> b * (q * P)" using b by (intro mult_left_mono) simp_all
    then have "M + b \<le> A" by (simp add: M_def A_def algebra_simps)
    with lo R0 b show False by simp
  qed
  have upper: "m < (q + 1) * P"
  proof (rule ccontr)
    assume "\<not> m < (q + 1) * P"
    then have "(q + 1) * P \<le> m" by simp
    then have "b * ((q + 1) * P) \<le> b * m" using b by (intro mult_left_mono) simp_all
    then have "A + b * P \<le> M" by (simp add: M_def A_def algebra_simps)
    with up have "2 * (b * P - R) \<le> b" by simp
    moreover have "1 * 2 ^ 23 \<le> (b - r) * P"
      using r P by (intro mult_mono) simp_all
    then have "2 ^ 23 \<le> b * P - R" by (simp add: R_def algebra_simps)
    ultimately show False by (simp add: b_def)
  qed
  have md: "m div 2 ^ k = q"
    by (rule int_div_pos_eq [of m "2 ^ k" q "m - 2 ^ k * q"])
       (use lower upper in \<open>simp_all add: P_def algebra_simps\<close>)
  have "m < 2 ^ (30 + k)"
  proof -
    have "(q + 1) * P \<le> 2 ^ 30 * P" using q P by (intro mult_right_mono) simp_all
    with upper have "m < 2 ^ 30 * P" by simp
    then show ?thesis by (simp only: power_add P_def)
  qed
  from bit_length_le [OF this] k have no_overflow: "\<not> 1024 < bit_length m + e" by simp
  have "0 \<le> q * P" using q P by simp
  with lower have m0: "0 \<le> m" by simp
  have "round_half_even (a * 2 ^ nat (- e)) (b * 2 ^ nat e) = m"
    using k(3) by (simp add: m_def k_def)
  moreover have "nearest_double a b
      = (if 1024 < bit_length (round_half_even (a * 2 ^ nat (- e)) (b * 2 ^ nat e)) + e then None
         else Some (round_half_even (a * 2 ^ nat (- e)) (b * 2 ^ nat e), e))"
    unfolding nearest_double_def Let_def e_def fl_def d_def ..
  ultimately have nd: "nearest_double a b = Some (m, e)"
    using no_overflow by simp
  have "py_int_of_float (py_abs (PyFloat (sgn t * sgn b * m) e)) = q"
  proof (cases "m = 0")
    case True
    with md have "q = 0" by simp
    with True show ?thesis by simp
  next
    case False
    with m0 have "0 < m" by simp
    moreover have "\<not> 0 \<le> e" "nat (- e) = k" using e by (simp_all add: k_def)
    ultimately show ?thesis
      using assms(1) md by (simp add: abs_mult b_def abs_sgn_eq)
  qed
  moreover have "py_truediv t 10000000 = Inr (PyFloat (sgn t * sgn b * m) e)"
    using nd [unfolded a_def b_def] assms(1) by (simp add: py_truediv_def b_def)
  ultimately show ?thesis
    by (simp add: clock_seconds_def q_def a_def b_def)
qed

lemma clock_agrees_below:
  assumes "\<bar>t\<bar> < 10737418240000000"
  shows "clock t = Inr (spec_decodeInterval t)"
proof (cases "t = 0")
  case True
  then show ?thesis by (simp add: clock_zero) code_simp
next
  case False
  from clock_seconds_exact [OF False assms] have "clock_seconds t = Inr (\<bar>t\<bar> div 10000000)" .
  moreover have "0 \<le> \<bar>t\<bar> div 10000000" by simp
  ultimately show ?thesis
    by (simp add: clock_def fmt_rd spec_decodeInterval_def Let_def)
qed

text \<open>
  Claim C2. The decoder divides in floating point and truncates afterwards, so a
  quotient within half a unit in the last place below a whole number is rounded up to
  it before it is truncated. At \<open>- 10737418249999999\<close> ticks, which are
  \<open>1073741824.9999999\<close> seconds, the decoder counts \<open>1073741825\<close> seconds where the
  specification's integer division counts \<open>1073741824\<close>.
\<close>

theorem clock_rounds_before_truncating:
  "clock_seconds (- 10737418249999999) = Inr 1073741825
   \<and> \<bar>- 10737418249999999\<bar> div 10000000 = (1073741824 :: int)
   \<and> clock (- 10737418249999999) = Inr ''12427 days 13 hours 37 minutes 5 seconds''
   \<and> spec_decodeInterval (- 10737418249999999) = ''12427 days 13 hours 37 minutes 4 seconds''"
  by code_simp

text \<open>
  Claim C9. The decoder does not see the sign of its input: a tick count and its
  negation decode alike (to the same text, or to the same exception).
\<close>

theorem clock_sign_insensitive: "clock (- t) = clock t"
  by (simp add: clock_def clock_seconds_def py_truediv_def abs_mult split: option.splits)

subsection \<open>The policy name\<close>

lemma pso_name_IndexError:
  "(pso_name v = Inl IndexError) = (CHR ''='' \<notin> set (hd (py_split v '','')))"
proof -
  have "(2 \<le> length (py_split (hd (py_split v '','')) ''=''))
      = (CHR ''='' \<in> set (hd (py_split v '','')))"
    unfolding py_split_def by (rule split_from_char_length)
  then show ?thesis
    by (auto simp add: pso_name_def split: list.splits)
qed

lemma takeWhile_twice: "takeWhile P (takeWhile Q xs) = takeWhile (\<lambda>x. Q x \<and> P x) xs"
  by (induction xs) auto

text \<open>
  The extraction cuts the value twice: what it returns is the text between the first
  equals sign and the comma or equals sign that comes next.
\<close>

lemma pso_name_cut:
  assumes k: "CHR '','' \<notin> set k" "CHR ''='' \<notin> set k"
  shows "pso_name (k @ ''='' @ rest) = Inr (takeWhile (\<lambda>c. c \<noteq> CHR '','' \<and> c \<noteq> CHR ''='') rest)"
proof -
  let ?seg = "takeWhile (\<lambda>x. x \<noteq> CHR '','') rest"
  have seg: "hd (py_split (k @ CHR ''='' # rest) '','') = k @ CHR ''='' # ?seg"
    using k by (simp add: py_split_def split_from_char_hd takeWhile_append)
  have sp: "py_split (k @ CHR ''='' # ?seg) ''='' = k # split_from ''='' [] ?seg"
    using k by (simp add: py_split_def split_from_char_sep)
  obtain p ps where ps: "split_from ''='' [] ?seg = p # ps"
    using split_from_ne [of "CHR ''=''" "[]" ?seg] by (cases "split_from ''='' [] ?seg") auto
  then have "p = hd (split_from ''='' [] ?seg)" by simp
  then have p: "p = takeWhile (\<lambda>c. c \<noteq> CHR '','' \<and> c \<noteq> CHR ''='') rest"
    by (simp add: split_from_char_hd takeWhile_twice)
  show ?thesis
    by (simp add: pso_name_def seg sp ps p)
qed

lemma takeWhile_stop:
  "\<forall>x \<in> set v. P x \<Longrightarrow> t = [] \<or> \<not> P (hd t) \<Longrightarrow> takeWhile P (v @ t) = v"
  by (cases t) (auto simp add: takeWhile_append)

lemma spec_first_rdn_plain:
  "CHR '','' \<notin> set v \<Longrightarrow> CHR 0x5C \<notin> set v \<Longrightarrow> t = [] \<or> hd t = CHR '','' \<Longrightarrow>
   spec_first_rdn (v @ t) = v"
proof (induction v)
  case Nil
  then show ?case by (cases t rule: spec_first_rdn.cases) auto
next
  case (Cons a v)
  then show ?case by (cases "v @ t") auto
qed

text \<open>
  Claim C4, as amended. A distinguished name begins with an attribute type (free of
  commas and equals signs) and an equals sign. For every such value the extracted policy
  name is what follows that equals sign, up to the next comma or equals sign or to the end
  of the value: the piece after the first equals sign of the piece before the first
  comma; nothing is unescaped. So when the value of the first component is free of commas
  and equals signs and is followed by nothing, a comma or an equals sign, the extracted
  name is that value; and when it is also free of backslashes and the type is \<^verbatim>\<open>CN\<close>,
  the extracted name is the first relative distinguished name without its \<^verbatim>\<open>CN=\<close>.
\<close>

theorem pso_name_first_component:
  "(CHR '','' \<notin> set k \<and> CHR ''='' \<notin> set k \<longrightarrow>
      pso_name (k @ ''='' @ rest) = Inr (takeWhile (\<lambda>c. c \<noteq> CHR '','' \<and> c \<noteq> CHR ''='') rest))
   \<and> (CHR '','' \<notin> set k \<and> CHR ''='' \<notin> set k \<and> CHR '','' \<notin> set v \<and> CHR ''='' \<notin> set v
        \<and> (t = [] \<or> hd t = CHR '','' \<or> hd t = CHR ''='')
      \<longrightarrow> pso_name (k @ ''='' @ v @ t) = Inr v)
   \<and> (CHR '','' \<notin> set v \<and> CHR ''='' \<notin> set v \<and> CHR 0x5C \<notin> set v \<and> (t = [] \<or> hd t = CHR '','')
      \<longrightarrow> spec_pso_name (''CN='' @ v @ t) = v
        \<and> pso_name (''CN='' @ v @ t) = Inr (spec_pso_name (''CN='' @ v @ t)))"
proof -
  have cut: "pso_name (k @ ''='' @ v @ t) = Inr v"
    if k: "CHR '','' \<notin> set k" "CHR ''='' \<notin> set k"
      and v: "CHR '','' \<notin> set v" "CHR ''='' \<notin> set v"
      and t: "t = [] \<or> hd t = CHR '','' \<or> hd t = CHR ''=''"
    for k :: string
  proof -
    have "takeWhile (\<lambda>c. c \<noteq> CHR '','' \<and> c \<noteq> CHR ''='') (v @ t) = v"
      using v t by (intro takeWhile_stop) auto
    with pso_name_cut [OF k, of "v @ t"] show ?thesis by simp
  qed
  have spec: "spec_pso_name (''CN='' @ v @ t) = v"
    if v: "CHR '','' \<notin> set v" "CHR 0x5C \<notin> set v" and t: "t = [] \<or> hd t = CHR '',''"
  proof -
    have "spec_first_rdn ((''CN='' @ v) @ t) = ''CN='' @ v"
      using v t by (intro spec_first_rdn_plain) auto
    then show ?thesis by (simp add: spec_pso_name_def)
  qed
  have code: "pso_name (''CN='' @ v @ t) = Inr v"
    if v: "CHR '','' \<notin> set v" "CHR ''='' \<notin> set v" and t: "t = [] \<or> hd t = CHR '',''"
    using cut [of "''CN''"] that by auto
  show ?thesis
    using pso_name_cut [of k rest] cut [of k] spec code by auto
qed

theorem pso_name_first_component_witness:
  "pso_name ''CN=StrictPolicy,CN=Password Settings Container,CN=System,DC=corp,DC=local''
     = Inr ''StrictPolicy''
   \<and> spec_pso_name ''CN=StrictPolicy,CN=Password Settings Container,CN=System,DC=corp,DC=local''
     = ''StrictPolicy''"
  using pso_name_first_component [of "''CN''"
      "''StrictPolicy,CN=Password Settings Container,CN=System,DC=corp,DC=local''" "''StrictPolicy''"
      "'',CN=Password Settings Container,CN=System,DC=corp,DC=local''"]
  by simp

text \<open>
  The claim as it stands fails for a distinguished name whose first component has an
  equals sign or an escaped comma in its value. Of \<^verbatim>\<open>CN=a=b,OU=x\<close> the first component
  without its \<^verbatim>\<open>CN=\<close> is \<^verbatim>\<open>a=b\<close>, and the extraction gives \<^verbatim>\<open>a\<close>. Of the policy named
  \<^verbatim>\<open>Ops, EU\<close>, whose distinguished name writes the comma with a backslash before it, the
  extraction gives \<^verbatim>\<open>Ops\<close> and the backslash.
\<close>

theorem pso_name_first_component_counterexample:
  "pso_name ''CN=a=b,OU=x'' = Inr ''a''
   \<and> spec_pso_name ''CN=a=b,OU=x'' = ''a=b''
   \<and> pso_name ''CN=a=b,OU=x'' \<noteq> Inr (spec_pso_name ''CN=a=b,OU=x'')
   \<and> pso_name (''CN=Ops'' @ [CHR 0x5C] @ '', EU,CN=Password Settings Container,CN=System,DC=corp,DC=local'')
       = Inr (''Ops'' @ [CHR 0x5C])
   \<and> spec_pso_name (''CN=Ops'' @ [CHR 0x5C] @ '', EU,CN=Password Settings Container,CN=System,DC=corp,DC=local'')
       = ''Ops'' @ [CHR 0x5C] @ '', EU''"
proof -
  have 1: "pso_name ''CN=a=b,OU=x'' = Inr ''a''"
    by code_simp
  have 2: "spec_pso_name ''CN=a=b,OU=x'' = ''a=b''"
    by code_simp
  have 3: "pso_name (''CN=Ops'' @ [CHR 0x5C] @ '', EU,CN=Password Settings Container,CN=System,DC=corp,DC=local'')
       = Inr (''Ops'' @ [CHR 0x5C])"
    by code_simp
  have 4: "spec_pso_name (''CN=Ops'' @ [CHR 0x5C] @ '', EU,CN=Password Settings Container,CN=System,DC=corp,DC=local'')
       = ''Ops'' @ [CHR 0x5C] @ '', EU''"
    by code_simp
  from 1 2 have "pso_name ''CN=a=b,OU=x'' \<noteq> Inr (spec_pso_name ''CN=a=b,OU=x'')"
    by simp
  with 1 2 3 4 show ?thesis by (intro conjI)
qed

subsection \<open>Establishing a session\<close>

lemma create_connection_None:
  "(fst (create_connection env a u p s log) = Inr None) = handled_failure (connect env log a u p s)"
  by (cases "connect env log a u p s" rule: handled_failure.cases)
     (simp_all add: create_connection_def Let_def)

lemma create_connection_cases:
  "(\<exists>c. create_connection env a u p s log = (Inr (Some c), log @ [Connect a u p s]))
   \<or> (\<exists>m. create_connection env a u p s log = (Inr None, log @ [Connect a u p s, Print m]))
   \<or> (\<exists>e. create_connection env a u p s log = (Inl e, log @ [Connect a u p s]))"
  by (cases "connect env log a u p s" rule: handled_failure.cases)
     (simp_all add: create_connection_def Let_def)

lemma create_connection_handled:
  "handled_failure (connect env log a u p s) \<Longrightarrow>
   \<exists>m. create_connection env a u p s log = (Inr None, log @ [Connect a u p s, Print m])"
  by (cases "connect env log a u p s" rule: handled_failure.cases)
     (simp_all add: create_connection_def Let_def)

lemma ssl_attempts_append: "ssl_attempts (xs @ ys) = ssl_attempts xs @ ssl_attempts ys"
  by (simp add: ssl_attempts_def)

lemma ssl_attempts_simps:
  "ssl_attempts [] = []"
  "ssl_attempts (Connect a u p s # evs) = (if s then [(a, u, p)] else []) @ ssl_attempts evs"
  "ssl_attempts (Print m # evs) = ssl_attempts evs"
  "ssl_attempts (Search c b f as # evs) = ssl_attempts evs"
  "ssl_attempts (Unbind c # evs) = ssl_attempts evs"
  "ssl_attempts (Report e # evs) = ssl_attempts evs"
  by (simp_all add: ssl_attempts_def)

lemma open_session_plain_first:
  "\<exists>rest. snd (open_session env username password domain dc_ip log)
     = log @ Connect (server_address_ldap domain dc_ip) (logon_name domain username) password False # rest"
  using create_connection_cases [of env "server_address_ldap domain dc_ip" "logon_name domain username" password False log]
    create_connection_cases [of env "server_address_ldaps domain dc_ip" "logon_name domain username" password True
      "fallback_log env username password domain dc_ip log"]
  by (auto simp add: open_session_def bind_def emit_def ret_def fallback_log_def)

lemma open_session_fallback:
  assumes "handled_failure (connect env log (server_address_ldap domain dc_ip) (logon_name domain username) password False)"
  shows "open_session env username password domain dc_ip log
       = create_connection env (server_address_ldaps domain dc_ip) (logon_name domain username) password True
           (fallback_log env username password domain dc_ip log)"
    and "\<exists>m. fallback_log env username password domain dc_ip log
       = log @ [Connect (server_address_ldap domain dc_ip) (logon_name domain username) password False, Print m, trying_ldaps]"
proof -
  from create_connection_handled [OF assms]
  obtain m where m: "create_connection env (server_address_ldap domain dc_ip) (logon_name domain username) password False log
       = (Inr None, log @ [Connect (server_address_ldap domain dc_ip) (logon_name domain username) password False, Print m])" ..
  then show "open_session env username password domain dc_ip log
       = create_connection env (server_address_ldaps domain dc_ip) (logon_name domain username) password True
           (fallback_log env username password domain dc_ip log)"
    by (simp add: open_session_def bind_def emit_def fallback_log_def)
  from m show "\<exists>m. fallback_log env username password domain dc_ip log
       = log @ [Connect (server_address_ldap domain dc_ip) (logon_name domain username) password False, Print m, trying_ldaps]"
    by (simp add: fallback_log_def)
qed

lemma open_session_ssl_once:
  assumes "handled_failure (connect env log (server_address_ldap domain dc_ip) (logon_name domain username) password False)"
  shows "ssl_attempts (snd (open_session env username password domain dc_ip log))
       = ssl_attempts log @ [(server_address_ldaps domain dc_ip, logon_name domain username, password)]"
  using open_session_fallback [OF assms]
    create_connection_cases [of env "server_address_ldaps domain dc_ip" "logon_name domain username" password True
      "fallback_log env username password domain dc_ip log"]
  by (auto simp add: ssl_attempts_append ssl_attempts_simps trying_ldaps_def)

text \<open>
  The frame common to the three queries: the session, then the query or the message that
  both attempts failed.
\<close>

lemma session_frame_None:
  "fst (open_session env username password domain dc_ip log) = Inr None \<Longrightarrow>
   bind (open_session env username password domain dc_ip)
     (\<lambda>conn. case conn of None \<Rightarrow> both_failed | Some c \<Rightarrow> body c) log
   = (Inr (), snd (open_session env username password domain dc_ip log)
        @ [Print ''Both LDAP and LDAPS connection attempts failed.''])"
  by (cases "open_session env username password domain dc_ip log")
     (simp add: bind_def both_failed_def emit_def)

lemma session_frame_Some:
  "open_session env username password domain dc_ip log = (Inr (Some c), l) \<Longrightarrow>
   bind (open_session env username password domain dc_ip)
     (\<lambda>conn. case conn of None \<Rightarrow> both_failed | Some c \<Rightarrow> body c) log
   = body c l"
  by (simp add: bind_def)

lemma session_frame_Inl:
  "open_session env username password domain dc_ip log = (Inl e, l) \<Longrightarrow>
   bind (open_session env username password domain dc_ip)
     (\<lambda>conn. case conn of None \<Rightarrow> both_failed | Some c \<Rightarrow> body c) log
   = (Inl e, l)"
  by (simp add: bind_def)

lemma both_fail_session:
  assumes "handled_failure (connect env log (server_address_ldap domain dc_ip) (logon_name domain username) password False)"
    and "handled_failure (connect env (fallback_log env username password domain dc_ip log)
           (server_address_ldaps domain dc_ip) (logon_name domain username) password True)"
  shows "\<exists>m. open_session env username password domain dc_ip log
       = (Inr None, fallback_log env username password domain dc_ip log
            @ [Connect (server_address_ldaps domain dc_ip) (logon_name domain username) password True, Print m])"
  using open_session_fallback(1) [OF assms(1)] create_connection_handled [OF assms(2)] by simp

lemma unreachable_handled: "\<forall>l a u p s. handled_failure (connect env_unreachable l a u p s)"
  by (simp add: env_unreachable_def)

lemma unreachable_fallback_log:
  "fallback_log env_unreachable ''svc'' ''secret'' ''corp.local'' (Some ''10.0.0.5'') log
     = log @ [Connect ''10.0.0.5:389'' (logon_name ''corp.local'' ''svc'') ''secret'' False,
              Print ''Could not connect to 10.0.0.5:389'', trying_ldaps]"
  by (simp add: fallback_log_def create_connection_def env_unreachable_def server_address_ldap_def
      server_host_def)

text \<open>
  Claim C1. Whatever the directory answers, the first event of establishing a session is
  the plaintext attempt. When that attempt fails with a socket-open failure or a rejected
  bind, establishing the session makes exactly one encrypted attempt, at the secure port
  with the same principal and password. When the encrypted attempt fails in one of these
  two ways as well, the session is absent, and each of the three queries prints that both
  attempts failed and returns: its log has the two attempts with their messages and no
  search.
\<close>

theorem session_fallback:
  "(\<exists>rest. snd (open_session env username password domain dc_ip log)
       = log @ Connect (server_address_ldap domain dc_ip) (logon_name domain username) password False # rest)
   \<and> (handled_failure (connect env log (server_address_ldap domain dc_ip) (logon_name domain username) password False) \<longrightarrow>
        ssl_attempts (snd (open_session env username password domain dc_ip log))
          = ssl_attempts log @ [(server_address_ldaps domain dc_ip, logon_name domain username, password)]
        \<and> (handled_failure (connect env (fallback_log env username password domain dc_ip log)
               (server_address_ldaps domain dc_ip) (logon_name domain username) password True) \<longrightarrow>
            (\<exists>m. open_session env username password domain dc_ip log
               = (Inr None, fallback_log env username password domain dc_ip log
                    @ [Connect (server_address_ldaps domain dc_ip) (logon_name domain username) password True, Print m])
             \<and> get_group_pso env username password domain dc_ip log
               = (Inr (), fallback_log env username password domain dc_ip log
                    @ [Connect (server_address_ldaps domain dc_ip) (logon_name domain username) password True, Print m,
                       Print ''Both LDAP and LDAPS connection attempts failed.''])
             \<and> get_user_attributes env username password domain dc_ip log
               = (Inr (), fallback_log env username password domain dc_ip log
                    @ [Connect (server_address_ldaps domain dc_ip) (logon_name domain username) password True, Print m,
                       Print ''Both LDAP and LDAPS connection attempts failed.''])
             \<and> get_pso_details env username password domain dc_ip log
               = (Inr (), fallback_log env username password domain dc_ip log
                    @ [Connect (server_address_ldaps domain dc_ip) (logon_name domain username) password True, Print m,
                       Print ''Both LDAP and LDAPS connection attempts failed.'']))))"
proof (intro conjI impI)
  show "\<exists>rest. snd (open_session env username password domain dc_ip log)
       = log @ Connect (server_address_ldap domain dc_ip) (logon_name domain username) password False # rest"
    by (rule open_session_plain_first)
next
  assume "handled_failure (connect env log (server_address_ldap domain dc_ip) (logon_name domain username) password False)"
  then show "ssl_attempts (snd (open_session env username password domain dc_ip log))
          = ssl_attempts log @ [(server_address_ldaps domain dc_ip, logon_name domain username, password)]"
    by (rule open_session_ssl_once)
next
  assume a: "handled_failure (connect env log (server_address_ldap domain dc_ip) (logon_name domain username) password False)"
    and b: "handled_failure (connect env (fallback_log env username password domain dc_ip log)
               (server_address_ldaps domain dc_ip) (logon_name domain username) password True)"
  from both_fail_session [OF a b] obtain m where
    m: "open_session env username password domain dc_ip log
       = (Inr None, fallback_log env username password domain dc_ip log
            @ [Connect (server_address_ldaps domain dc_ip) (logon_name domain username) password True, Print m])" ..
  then have n: "fst (open_session env username password domain dc_ip log) = Inr None" by simp
  show "\<exists>m. open_session env username password domain dc_ip log
               = (Inr None, fallback_log env username password domain dc_ip log
                    @ [Connect (server_address_ldaps domain dc_ip) (logon_name domain username) password True, Print m])
             \<and> get_group_pso env username password domain dc_ip log
               = (Inr (), fallback_log env username password domain dc_ip log
                    @ [Connect (server_address_ldaps domain dc_ip) (logon_name domain username) password True, Print m,
                       Print ''Both LDAP and LDAPS connection attempts failed.''])
             \<and> get_user_attributes env username password domain dc_ip log
               = (Inr (), fallback_log env username password domain dc_ip log
                    @ [Connect (server_address_ldaps domain dc_ip) (logon_name domain username) password True, Print m,
                       Print ''Both LDAP and LDAPS connection attempts failed.''])
             \<and> get_pso_details env username password domain dc_ip log
               = (Inr (), fallback_log env username password domain dc_ip log
                    @ [Connect (server_address_ldaps domain dc_ip) (logon_name domain username) password True, Print m,
                       Print ''Both LDAP and LDAPS connection attempts failed.''])"
    unfolding get_group_pso_def get_user_attributes_def get_pso_details_def
      session_frame_None [OF n]
    using m by simp
qed

theorem session_fallback_witness:
  "handled_failure (connect env_unreachable [] ''10.0.0.5:389'' (logon_name ''corp.local'' ''svc'') ''secret'' False)
   \<and> ssl_attempts (snd (open_session env_unreachable ''svc'' ''secret'' ''corp.local'' (Some ''10.0.0.5'') []))
       = [(''10.0.0.5:636'', logon_name ''corp.local'' ''svc'', ''secret'')]
   \<and> (\<exists>m. get_user_attributes env_unreachable ''svc'' ''secret'' ''corp.local'' (Some ''10.0.0.5'') []
       = (Inr (),
          [Connect ''10.0.0.5:389'' (logon_name ''corp.local'' ''svc'') ''secret'' False,
           Print ''Could not connect to 10.0.0.5:389'', trying_ldaps,
           Connect ''10.0.0.5:636'' (logon_name ''corp.local'' ''svc'') ''secret'' True,
           Print m, Print ''Both LDAP and LDAPS connection attempts failed.'']))"
  using session_fallback [of env_unreachable "''svc''" "''secret''" "''corp.local''" "Some ''10.0.0.5''" "[]"]
    unreachable_handled
  by (auto simp add: unreachable_fallback_log server_address_ldap_def server_address_ldaps_def
      server_host_def ssl_attempts_simps)

subsection \<open>The table of users\<close>

lemma print_lines_Inr: "print_lines (map Inr ls) log = (Inr (), log @ map Print ls)"
  by (induction ls arbitrary: log) simp_all

lemma print_lines_log: "\<exists>out. snd (print_lines ls log) = log @ map Print out"
proof (induction ls arbitrary: log)
  case Nil
  have "snd (print_lines [] log) = log @ map Print []" by simp
  then show ?case ..
next
  case (Cons x ls)
  show ?case
  proof (cases x)
    case (Inl e)
    then have "snd (print_lines (x # ls) log) = log @ map Print []" by simp
    then show ?thesis ..
  next
    case (Inr l)
    from Cons.IH [of "log @ [Print l]"] obtain out
      where "snd (print_lines ls (log @ [Print l])) = (log @ [Print l]) @ map Print out" ..
    with Inr have "snd (print_lines (x # ls) log) = log @ map Print (l # out)" by simp
    then show ?thesis ..
  qed
qed

lemma collect_rows:
  assumes "\<forall>e \<in> set es. present_nonempty e key \<longrightarrow> (\<exists>acct name. row e = Inr (PStr acct, name))"
  shows "\<exists>w1 w2. collect row key es (results, a, b)
       = Inr (results @ map (\<lambda>e. projr (row e)) (filter (\<lambda>e. present_nonempty e key) es), w1, w2)"
  using assms
proof (induction es arbitrary: results a b)
  case Nil
  show ?case by simp
next
  case (Cons e es)
  show ?case
  proof (cases "present_nonempty e key")
    case False
    with Cons.IH [of results a b] Cons.prems show ?thesis by simp
  next
    case True
    with Cons.prems obtain acct name where r: "row e = Inr (PStr acct, name)" by auto
    from Cons.IH [of "results @ [(PStr acct, name)]" "max a (length acct)" "max b (length name)"] Cons.prems
    obtain w1 w2 where "collect row key es (results @ [(PStr acct, name)], max a (length acct), max b (length name))
       = Inr ((results @ [(PStr acct, name)]) @ map (\<lambda>e. projr (row e)) (filter (\<lambda>e. present_nonempty e key) es), w1, w2)"
      by auto
    with True r show ?thesis by (simp add: py_len_def)
  qed
qed

lemma collect_Inr_rows:
  "collect row key es st = Inr st' \<Longrightarrow> e \<in> set es \<Longrightarrow> present_nonempty e key \<Longrightarrow> \<exists>r. row e = Inr r"
proof (induction es arbitrary: st)
  case Nil
  then show ?case by simp
next
  case (Cons x xs)
  obtain results a b where st: "st = (results, a, b)" by (cases st)
  show ?case
  proof (cases "present_nonempty x key")
    case False
    with Cons st show ?thesis by auto
  next
    case True
    with Cons.prems(1) st obtain name pso n where r: "row x = Inr (name, pso)" and n: "py_len name = Inr n"
      and c: "collect row key xs (results @ [(name, pso)], max a n, max b (length pso)) = Inr st'"
      by (auto split: sum.splits prod.splits)
    show ?thesis
    proof (cases "e = x")
      case True with r show ?thesis by simp
    next
      case False
      with Cons.prems(2) have "e \<in> set xs" by simp
      from Cons.IH [OF c this Cons.prems(3)] show ?thesis .
    qed
  qed
qed

lemma user_row_ok:
  assumes p: "present_nonempty e ''msDS-ResultantPSO''"
    and eq: "CHR ''='' \<in> set (hd (py_split (attr_str env (the (e ''msDS-ResultantPSO''))) '',''))"
    and sam: "e ''sAMAccountName'' = Some [v]"
  shows "\<exists>name. pso_name (attr_str env (the (e ''msDS-ResultantPSO''))) = Inr name
       \<and> user_row env e = Inr (PStr v, name)"
proof -
  from p obtain vs where vs: "e ''msDS-ResultantPSO'' = Some vs"
    by (auto simp add: present_nonempty_def split: option.splits)
  from eq pso_name_IndexError [of "attr_str env vs"] vs
  obtain name where n: "pso_name (attr_str env vs) = Inr name"
    by (cases "pso_name (attr_str env vs)") (auto simp add: pso_name_def split: list.splits)
  from sam vs n have "user_row env e = Inr (PStr v, name)"
    by (simp add: user_row_def getitem_def attr_value_def)
  with n vs show ?thesis by simp
qed

lemma list_all2_map_right: "(\<And>x. x \<in> set xs \<Longrightarrow> P x (f x)) \<Longrightarrow> list_all2 P xs (map f xs)"
  by (induction xs) simp_all

text \<open>
  Claim C5, as amended. Take entries in which every entry with a present, non-empty
  resultant policy has an equals sign in the first comma-delimited piece of that value and
  an account name with one value. Then the table of users is printed without an
  exception: the header, the separator, and exactly one row for each entry whose
  resultant policy is present and non-empty, in the order of the entries, with the account
  name and the extracted policy name. An entry without the attribute, or with no value
  for it, has no row.
\<close>

theorem users_table_rows:
  assumes "\<forall>e \<in> set es. present_nonempty e ''msDS-ResultantPSO'' \<longrightarrow>
             CHR ''='' \<in> set (hd (py_split (attr_str env (the (e ''msDS-ResultantPSO''))) '',''))
             \<and> (\<exists>v. e ''sAMAccountName'' = Some [v])"
  shows "\<exists>w1 w2 rows.
           users_table env es log
             = (Inr (), log @ Print (table_header ''Users'' w1 w2) # Print (table_separator w1 w2) # map Print rows)
         \<and> list_all2
             (\<lambda>e row. \<exists>name. pso_name (attr_str env (the (e ''msDS-ResultantPSO''))) = Inr name
                \<and> row = ''| '' @ GREEN @ ljust w1 (hd (the (e ''sAMAccountName'')))
                         @ RESET @ '' | '' @ ljust w2 name @ '' |'')
             (filter (\<lambda>e. present_nonempty e ''msDS-ResultantPSO'') es) rows"
proof -
  let ?P = "\<lambda>e. present_nonempty e ''msDS-ResultantPSO''"
  let ?acct = "\<lambda>e. hd (the (e ''sAMAccountName''))"
  have ok: "\<exists>name. pso_name (attr_str env (the (e ''msDS-ResultantPSO''))) = Inr name
       \<and> user_row env e = Inr (PStr (?acct e), name)" if "e \<in> set es" "?P e" for e
  proof -
    from that assms obtain v
      where eq: "CHR ''='' \<in> set (hd (py_split (attr_str env (the (e ''msDS-ResultantPSO''))) '',''))"
        and v: "e ''sAMAccountName'' = Some [v]"
      by blast
    from user_row_ok [OF that(2) eq v] v show ?thesis by simp
  qed
  then have "\<forall>e \<in> set es. ?P e \<longrightarrow> (\<exists>acct name. user_row env e = Inr (PStr acct, name))"
    by blast
  from collect_rows [OF this, of "[]" 5 3] obtain w1 w2 where
    c: "collect (user_row env) ''msDS-ResultantPSO'' es ([], 5, 3)
        = Inr (map (\<lambda>e. projr (user_row env e)) (filter ?P es), w1, w2)"
    by auto
  let ?line = "\<lambda>e. ''| '' @ GREEN @ ljust w1 (?acct e) @ RESET @ '' | ''
                  @ ljust w2 (snd (projr (user_row env e))) @ '' |''"
  have line: "table_row w1 w2 (projr (user_row env e)) = Inr (?line e)" if "e \<in> set es" "?P e" for e
  proof -
    from ok [OF that] obtain name where "user_row env e = Inr (PStr (?acct e), name)" by blast
    then show ?thesis by (simp add: table_row_def format_left_def)
  qed
  define rows where "rows = map (\<lambda>e. projr (user_row env e)) (filter ?P es)"
  define lines where "lines = map ?line (filter ?P es)"
  have m: "map (table_row w1 w2) rows = map Inr lines"
    unfolding rows_def lines_def using line by simp
  have "print_table ''Users'' (rows, w1, w2) log
      = print_lines (map Inr (table_header ''Users'' w1 w2 # table_separator w1 w2 # lines)) log"
    by (simp add: print_table_def m)
  also have "\<dots> = (Inr (), log @ map Print (table_header ''Users'' w1 w2 # table_separator w1 w2 # lines))"
    by (rule print_lines_Inr)
  finally have pt: "print_table ''Users'' (rows, w1, w2) log
      = (Inr (), log @ map Print (table_header ''Users'' w1 w2 # table_separator w1 w2 # lines))" .
  from c have "users_table env es log = print_table ''Users'' (rows, w1, w2) log"
    by (simp add: users_table_def bind_def lift_def rows_def)
  with pt have "users_table env es log
      = (Inr (), log @ Print (table_header ''Users'' w1 w2) # Print (table_separator w1 w2)
           # map Print (map ?line (filter ?P es)))"
    by (simp add: lines_def)
  moreover have "list_all2
             (\<lambda>e row. \<exists>name. pso_name (attr_str env (the (e ''msDS-ResultantPSO''))) = Inr name
                \<and> row = ''| '' @ GREEN @ ljust w1 (?acct e) @ RESET @ '' | '' @ ljust w2 name @ '' |'')
             (filter ?P es) (map ?line (filter ?P es))"
  proof (rule list_all2_map_right)
    fix e
    assume "e \<in> set (filter ?P es)"
    then have "e \<in> set es" "?P e" by simp_all
    from ok [OF this] obtain name
      where "pso_name (attr_str env (the (e ''msDS-ResultantPSO''))) = Inr name"
        and "user_row env e = Inr (PStr (?acct e), name)" by blast
    then show "\<exists>name. pso_name (attr_str env (the (e ''msDS-ResultantPSO''))) = Inr name
                \<and> ?line e = ''| '' @ GREEN @ ljust w1 (?acct e) @ RESET @ '' | '' @ ljust w2 name @ '' |''"
      by simp
  qed
  ultimately show ?thesis by blast
qed

theorem users_table_rows_witness:
  "user_bob ''msDS-ResultantPSO'' = Some []
   \<and> (\<exists>w1 w2. users_table (env_directory [] [user_alice, user_bob] []) [user_alice, user_bob] []
     = (Inr (), [Print (table_header ''Users'' w1 w2), Print (table_separator w1 w2),
          Print (''| '' @ GREEN @ ljust w1 ''alice'' @ RESET @ '' | '' @ ljust w2 ''StrictPolicy'' @ '' |'')]))"
proof -
  have "\<forall>e \<in> set [user_alice, user_bob]. present_nonempty e ''msDS-ResultantPSO'' \<longrightarrow>
             CHR ''='' \<in> set (hd (py_split (attr_str (env_directory [] [user_alice, user_bob] []) (the (e ''msDS-ResultantPSO''))) '',''))
             \<and> (\<exists>v. e ''sAMAccountName'' = Some [v])"
    by (simp add: user_alice_def user_bob_def present_nonempty_def attr_str_def strict_dn_def
        py_split_def split_from_char_hd)
  from users_table_rows [OF this, of "[]"]
  have "\<exists>w1 w2. users_table (env_directory [] [user_alice, user_bob] []) [user_alice, user_bob] []
     = (Inr (), [Print (table_header ''Users'' w1 w2), Print (table_separator w1 w2),
          Print (''| '' @ GREEN @ ljust w1 ''alice'' @ RESET @ '' | '' @ ljust w2 ''StrictPolicy'' @ '' |'')])"
    by (auto simp add: user_alice_def user_bob_def present_nonempty_def attr_str_def strict_dn_def
        pso_name_def py_split_def split_from_char_hd split_from_char_Cons split_from_Nil list_all2_Cons1)
  then show ?thesis by (simp add: user_bob_def)
qed

text \<open>
  The claim as it stands fails for an entry whose resultant policy has no equals sign:
  the value is present and non-empty, and the table raises \<open>IndexError\<close> before it
  prints anything.
\<close>

theorem users_table_counterexample:
  "present_nonempty user_mallory ''msDS-ResultantPSO''
   \<and> users_table (env_directory [] [user_mallory] []) [user_mallory] [] = (Inl IndexError, [])"
  by (simp add: users_table_def bind_def lift_def user_row_def getitem_def user_mallory_def
      present_nonempty_def attr_str_def pso_name_def py_split_def split_from_char_Cons split_from_Nil)

text \<open>
  The statement above asks for an account name with a value. An entry whose account name
  has none is not covered by it: line 57 reads \<open>None\<close> for the name, line 63 takes the
  length of it, and the table raises \<open>TypeError\<close>.
\<close>

lemma users_table_no_account_name:
  "present_nonempty user_unnamed ''msDS-ResultantPSO''
   \<and> users_table env [user_unnamed] log = (Inl TypeError, log)"
  by (simp add: users_table_def bind_def lift_def user_row_def getitem_def user_unnamed_def
      present_nonempty_def attr_str_def attr_value_def pso_name_def py_split_def strict_dn_def
      split_from_char_Cons split_from_Nil py_len_def)

subsection \<open>The extraction of the policy name is partial\<close>

lemma group_row_Inr:
  assumes "present_nonempty e ''msDS-PSOApplied''" and "group_row env e = Inr r"
  shows "CHR ''='' \<in> set (hd (py_split (attr_str env (the (e ''msDS-PSOApplied''))) '',''))"
proof -
  from assms(1) obtain vs where vs: "e ''msDS-PSOApplied'' = Some vs"
    by (auto simp add: present_nonempty_def split: option.splits)
  from assms(2) vs have "pso_name (attr_str env vs) \<noteq> Inl IndexError"
    by (auto simp add: group_row_def getitem_def getattr_def split: option.splits sum.splits)
  with pso_name_IndexError [of "attr_str env vs"] vs show ?thesis by simp
qed

lemma user_row_Inr':
  assumes "present_nonempty e ''msDS-ResultantPSO''" and "user_row env e = Inr r"
  shows "CHR ''='' \<in> set (hd (py_split (attr_str env (the (e ''msDS-ResultantPSO''))) '',''))"
proof -
  from assms(1) obtain vs where vs: "e ''msDS-ResultantPSO'' = Some vs"
    by (auto simp add: present_nonempty_def split: option.splits)
  from assms(2) vs have "pso_name (attr_str env vs) \<noteq> Inl IndexError"
    by (auto simp add: user_row_def getitem_def split: option.splits sum.splits)
  with pso_name_IndexError [of "attr_str env vs"] vs show ?thesis by simp
qed

lemma user_row_IndexError:
  assumes "present_nonempty e ''msDS-ResultantPSO''"
    and "CHR ''='' \<notin> set (hd (py_split (attr_str env (the (e ''msDS-ResultantPSO''))) '',''))"
  shows "user_row env e = Inl IndexError"
proof -
  from assms(1) obtain vs where vs: "e ''msDS-ResultantPSO'' = Some vs"
    by (auto simp add: present_nonempty_def split: option.splits)
  with assms(2) pso_name_IndexError [of "attr_str env vs"] have "pso_name (attr_str env vs) = Inl IndexError"
    by simp
  with vs show ?thesis by (simp add: user_row_def getitem_def)
qed

lemma table_Inr_collect:
  "fst (bind (lift (collect row key es st)) (print_table title) log) = Inr () \<Longrightarrow> \<exists>st'. collect row key es st = Inr st'"
  by (cases "collect row key es st") (auto simp add: bind_def lift_def)

lemma users_alice: "fst (users_table (env_directory [] [] []) [user_alice] []) = Inr ()"
  by (simp add: users_table_def bind_def lift_def user_row_def getitem_def user_alice_def
      present_nonempty_def attr_str_def attr_value_def pso_name_def py_split_def strict_dn_def
      split_from_char_Cons split_from_Nil py_len_def print_table_def table_row_def format_left_def)

lemma groups_admins: "fst (groups_table (env_directory [] [] []) [group_admins] []) = Inr ()"
  by (simp add: groups_table_def bind_def lift_def group_row_def getitem_def getattr_def group_admins_def
      present_nonempty_def attr_str_def attr_value_def pso_name_def py_split_def strict_dn_def
      split_from_char_Cons split_from_Nil py_len_def print_table_def table_row_def format_left_def)

text \<open>
  Claim C10. The extraction raises \<open>IndexError\<close> exactly when the first
  comma-delimited piece of the value has no equals sign; a user entry whose present,
  non-empty value is such raises \<open>IndexError\<close> instead of giving a row; and the tables
  of users and of groups are printed without an exception only if every value they
  process has an equals sign in its first piece.
\<close>

theorem pso_name_partial:
  "((pso_name v = Inl IndexError) = (CHR ''='' \<notin> set (hd (py_split v '',''))))
   \<and> (present_nonempty e ''msDS-ResultantPSO''
        \<and> CHR ''='' \<notin> set (hd (py_split (attr_str env (the (e ''msDS-ResultantPSO''))) '',''))
      \<longrightarrow> user_row env e = Inl IndexError)
   \<and> (fst (users_table env us log) = Inr () \<longrightarrow>
        (\<forall>u \<in> set us. present_nonempty u ''msDS-ResultantPSO'' \<longrightarrow>
           CHR ''='' \<in> set (hd (py_split (attr_str env (the (u ''msDS-ResultantPSO''))) '',''))))
   \<and> (fst (groups_table env gs log) = Inr () \<longrightarrow>
        (\<forall>g \<in> set gs. present_nonempty g ''msDS-PSOApplied'' \<longrightarrow>
           CHR ''='' \<in> set (hd (py_split (attr_str env (the (g ''msDS-PSOApplied''))) '',''))))"
proof (intro conjI impI ballI)
  show "(pso_name v = Inl IndexError) = (CHR ''='' \<notin> set (hd (py_split v '','')))"
    by (rule pso_name_IndexError)
next
  assume "present_nonempty e ''msDS-ResultantPSO''
        \<and> CHR ''='' \<notin> set (hd (py_split (attr_str env (the (e ''msDS-ResultantPSO''))) '',''))"
  then show "user_row env e = Inl IndexError"
    using user_row_IndexError by blast
next
  fix u
  assume "fst (users_table env us log) = Inr ()" and u: "u \<in> set us" "present_nonempty u ''msDS-ResultantPSO''"
  then obtain st' where "collect (user_row env) ''msDS-ResultantPSO'' us ([], 5, 3) = Inr st'"
    unfolding users_table_def using table_Inr_collect by blast
  from collect_Inr_rows [OF this u] obtain r where "user_row env u = Inr r" ..
  with u(2) show "CHR ''='' \<in> set (hd (py_split (attr_str env (the (u ''msDS-ResultantPSO''))) '',''))"
    by (rule user_row_Inr')
next
  fix g
  assume "fst (groups_table env gs log) = Inr ()" and g: "g \<in> set gs" "present_nonempty g ''msDS-PSOApplied''"
  then obtain st' where "collect (group_row env) ''msDS-PSOApplied'' gs ([], 6, 3) = Inr st'"
    unfolding groups_table_def using table_Inr_collect by blast
  from collect_Inr_rows [OF this g] obtain r where "group_row env g = Inr r" ..
  with g(2) show "CHR ''='' \<in> set (hd (py_split (attr_str env (the (g ''msDS-PSOApplied''))) '',''))"
    by (rule group_row_Inr)
qed

theorem pso_name_partial_witness:
  "pso_name ''StrictPolicy'' = Inl IndexError
   \<and> present_nonempty user_mallory ''msDS-ResultantPSO''
   \<and> user_row (env_directory [] [] []) user_mallory = Inl IndexError
   \<and> fst (users_table (env_directory [] [] []) [user_alice] []) = Inr ()
   \<and> CHR ''='' \<in> set (hd (py_split strict_dn '',''))
   \<and> fst (groups_table (env_directory [] [] []) [group_admins] []) = Inr ()"
  using pso_name_partial [of "''StrictPolicy''" user_mallory "env_directory [] [] []" "[user_alice]" "[]" "[group_admins]"]
    users_alice groups_admins
  by (simp add: user_mallory_def user_alice_def group_admins_def present_nonempty_def attr_str_def
      py_split_def split_from_char_hd)

subsection \<open>Releasing the session\<close>

lemma table_log:
  "\<exists>out. snd (bind (lift (collect row key es st)) (print_table title) l) = l @ map Print out"
proof (cases "collect row key es st")
  case (Inl e)
  then have "snd (bind (lift (collect row key es st)) (print_table title) l) = l @ map Print []"
    by (simp add: bind_def lift_def)
  then show ?thesis ..
next
  case (Inr st')
  obtain results w1 w2 where "st' = (results, w1, w2)" by (cases st')
  with Inr print_lines_log [of "Inr (table_header title w1 w2) # Inr (table_separator w1 w2) # map (table_row w1 w2) results" l]
  show ?thesis by (simp add: bind_def lift_def print_table_def)
qed

lemma print_details_log: "\<exists>out. snd (print_details env es l) = l @ map Print out"
proof (cases "0 < length es")
  case True
  with print_lines_log [of "concat (map (entry_lines env) es)" l] show ?thesis
    by (simp add: print_details_def)
next
  case False
  then have "snd (print_details env es l)
      = l @ map Print [''Could not enumerate details, you likely do not have the privileges to do so!'']"
    by (simp add: print_details_def emit_def)
  then show ?thesis ..
qed

lemma body_release:
  assumes tl: "\<And>es l. \<exists>out. snd (tbl es l) = l @ map Print out"
    and ok: "fst (bind (do_search env c b f a) (\<lambda>es. bind (tbl es) (\<lambda>_. do_unbind env c)) l) = Inr ()"
  shows "\<exists>out. snd (bind (do_search env c b f a) (\<lambda>es. bind (tbl es) (\<lambda>_. do_unbind env c)) l)
          = l @ Search c b f a # map Print out @ [Unbind c]"
proof (cases "search env l c b f a")
  case (Inl e)
  with ok show ?thesis by (simp add: bind_def do_search_def)
next
  case (Inr es)
  from tl [of es "l @ [Search c b f a]"] obtain out
    where out: "snd (tbl es (l @ [Search c b f a])) = (l @ [Search c b f a]) @ map Print out" ..
  obtain r l' where t: "tbl es (l @ [Search c b f a]) = (r, l')" by (cases "tbl es (l @ [Search c b f a])")
  show ?thesis
  proof (cases r)
    case (Inl e)
    with ok Inr t show ?thesis by (simp add: bind_def do_search_def)
  next
    case (Inr u)
    with \<open>search env l c b f a = Inr es\<close> t out
    have "snd (bind (do_search env c b f a) (\<lambda>es. bind (tbl es) (\<lambda>_. do_unbind env c)) l)
          = l @ Search c b f a # map Print out @ [Unbind c]"
      by (simp add: bind_def do_search_def do_unbind_def split: option.splits)
    then show ?thesis ..
  qed
qed

lemma do_unbind_log: "snd (do_unbind env c l) = l @ [Unbind c]"
  by (simp add: do_unbind_def split: option.splits)

lemma corp_base: "search_base_of ''corp.local'' = ''DC=corp,DC=local''"
  by code_simp

lemma corp_settings_base:
  "password_settings_base ''corp.local'' = ''CN=Password Settings Container,CN=System,DC=corp,DC=local''"
  by code_simp

lemma demo_session:
  "open_session (env_directory gs us ps) ''svc'' ''secret'' ''corp.local'' (Some ''10.0.0.5'') log
     = (Inr (Some 1), log @ [Connect ''10.0.0.5:389'' (logon_name ''corp.local'' ''svc'') ''secret'' False])"
  by (simp add: open_session_def bind_def ret_def create_connection_def env_directory_def
      server_address_ldap_def server_host_def)

lemma strict_name: "pso_name strict_dn = Inr ''StrictPolicy''"
  unfolding strict_dn_def by code_simp

lemma plain_name: "pso_name ''StrictPolicy'' = Inl IndexError"
  by code_simp

lemma demo_users_ok:
  "get_user_attributes (env_directory [] [user_alice] []) ''svc'' ''secret'' ''corp.local'' (Some ''10.0.0.5'') []
     = (Inr (), [Connect ''10.0.0.5:389'' (logon_name ''corp.local'' ''svc'') ''secret'' False,
          Search 1 ''DC=corp,DC=local'' ''(objectClass=user)'' [''sAMAccountName'', ''msDS-ResultantPSO''],
          Print (table_header ''Users'' 5 12), Print (table_separator 5 12),
          Print (''| '' @ GREEN @ ''alice'' @ RESET @ '' | StrictPolicy |''),
          Unbind 1])"
  unfolding get_user_attributes_def session_frame_Some [OF demo_session]
  by (simp add: bind_def do_search_def env_directory_def corp_base users_table_def lift_def
      user_row_def getitem_def user_alice_def present_nonempty_def attr_str_def attr_value_def
      strict_name py_len_def print_table_def table_row_def format_left_def ljust_def do_unbind_def
      eval_nat_numeral)

text \<open>
  Claim C8, as amended. When a query has established a session and returns without an
  exception, its log from there on is the search, printed lines and, last, the release of
  that session. In particular a search that finds nothing is followed by the release: after
  the empty table, or after the warning about privileges.
\<close>

theorem session_released:
  assumes "open_session env username password domain dc_ip log = (Inr (Some c), l)"
  shows "(fst (get_group_pso env username password domain dc_ip log) = Inr () \<longrightarrow>
            (\<exists>out. snd (get_group_pso env username password domain dc_ip log)
               = l @ Search c (search_base_of domain) ''(objectClass=group)'' [''cn'', ''msDS-PSOApplied'']
                     # map Print out @ [Unbind c]))
       \<and> (fst (get_user_attributes env username password domain dc_ip log) = Inr () \<longrightarrow>
            (\<exists>out. snd (get_user_attributes env username password domain dc_ip log)
               = l @ Search c (search_base_of domain) ''(objectClass=user)''
                       [''sAMAccountName'', ''msDS-ResultantPSO'']
                     # map Print out @ [Unbind c]))
       \<and> (fst (get_pso_details env username password domain dc_ip log) = Inr () \<longrightarrow>
            (\<exists>out. snd (get_pso_details env username password domain dc_ip log)
               = l @ Search c (password_settings_base domain) ''(objectclass=msDS-PasswordSettings)''
                       pso_attributes
                     # map Print out @ [Unbind c]))
       \<and> (search env l c (search_base_of domain) ''(objectClass=group)'' [''cn'', ''msDS-PSOApplied''] = Inr [] \<longrightarrow>
            snd (get_group_pso env username password domain dc_ip log)
              = l @ [Search c (search_base_of domain) ''(objectClass=group)'' [''cn'', ''msDS-PSOApplied''],
                     Print (table_header ''Groups'' 6 3), Print (table_separator 6 3), Unbind c])
       \<and> (search env l c (search_base_of domain) ''(objectClass=user)''
              [''sAMAccountName'', ''msDS-ResultantPSO''] = Inr [] \<longrightarrow>
            snd (get_user_attributes env username password domain dc_ip log)
              = l @ [Search c (search_base_of domain) ''(objectClass=user)''
                       [''sAMAccountName'', ''msDS-ResultantPSO''],
                     Print (table_header ''Users'' 5 3), Print (table_separator 5 3), Unbind c])
       \<and> (search env l c (password_settings_base domain) ''(objectclass=msDS-PasswordSettings)''
              pso_attributes = Inr [] \<longrightarrow>
            snd (get_pso_details env username password domain dc_ip log)
              = l @ [Search c (password_settings_base domain) ''(objectclass=msDS-PasswordSettings)''
                       pso_attributes,
                     Print ''Could not enumerate details, you likely do not have the privileges to do so!'',
                     Unbind c])"
proof (intro conjI impI)
  assume "fst (get_group_pso env username password domain dc_ip log) = Inr ()"
  then show "\<exists>out. snd (get_group_pso env username password domain dc_ip log)
               = l @ Search c (search_base_of domain) ''(objectClass=group)'' [''cn'', ''msDS-PSOApplied'']
                     # map Print out @ [Unbind c]"
    unfolding get_group_pso_def session_frame_Some [OF assms] groups_table_def
    by (rule body_release [rotated]) (rule table_log)
next
  assume "fst (get_user_attributes env username password domain dc_ip log) = Inr ()"
  then show "\<exists>out. snd (get_user_attributes env username password domain dc_ip log)
               = l @ Search c (search_base_of domain) ''(objectClass=user)''
                       [''sAMAccountName'', ''msDS-ResultantPSO'']
                     # map Print out @ [Unbind c]"
    unfolding get_user_attributes_def session_frame_Some [OF assms] users_table_def
    by (rule body_release [rotated]) (rule table_log)
next
  assume "fst (get_pso_details env username password domain dc_ip log) = Inr ()"
  then show "\<exists>out. snd (get_pso_details env username password domain dc_ip log)
               = l @ Search c (password_settings_base domain) ''(objectclass=msDS-PasswordSettings)''
                       pso_attributes
                     # map Print out @ [Unbind c]"
    unfolding get_pso_details_def session_frame_Some [OF assms]
    by (rule body_release [rotated]) (rule print_details_log)
next
  assume "search env l c (search_base_of domain) ''(objectClass=group)'' [''cn'', ''msDS-PSOApplied''] = Inr []"
  then show "snd (get_group_pso env username password domain dc_ip log)
              = l @ [Search c (search_base_of domain) ''(objectClass=group)'' [''cn'', ''msDS-PSOApplied''],
                     Print (table_header ''Groups'' 6 3), Print (table_separator 6 3), Unbind c]"
    unfolding get_group_pso_def session_frame_Some [OF assms]
    by (simp add: bind_def do_search_def groups_table_def lift_def print_table_def do_unbind_log)
next
  assume "search env l c (search_base_of domain) ''(objectClass=user)''
              [''sAMAccountName'', ''msDS-ResultantPSO''] = Inr []"
  then show "snd (get_user_attributes env username password domain dc_ip log)
              = l @ [Search c (search_base_of domain) ''(objectClass=user)''
                       [''sAMAccountName'', ''msDS-ResultantPSO''],
                     Print (table_header ''Users'' 5 3), Print (table_separator 5 3), Unbind c]"
    unfolding get_user_attributes_def session_frame_Some [OF assms]
    by (simp add: bind_def do_search_def users_table_def lift_def print_table_def do_unbind_log)
next
  assume "search env l c (password_settings_base domain) ''(objectclass=msDS-PasswordSettings)''
              pso_attributes = Inr []"
  then show "snd (get_pso_details env username password domain dc_ip log)
              = l @ [Search c (password_settings_base domain) ''(objectclass=msDS-PasswordSettings)''
                       pso_attributes,
                     Print ''Could not enumerate details, you likely do not have the privileges to do so!'',
                     Unbind c]"
    unfolding get_pso_details_def session_frame_Some [OF assms]
    by (simp add: bind_def do_search_def print_details_def emit_def do_unbind_log)
qed

theorem session_released_witness:
  "open_session (env_directory [] [user_alice] []) ''svc'' ''secret'' ''corp.local'' (Some ''10.0.0.5'') []
     = (Inr (Some 1), [Connect ''10.0.0.5:389'' (logon_name ''corp.local'' ''svc'') ''secret'' False])
   \<and> snd (get_group_pso (env_directory [] [user_alice] []) ''svc'' ''secret'' ''corp.local''
            (Some ''10.0.0.5'') [])
       = [Connect ''10.0.0.5:389'' (logon_name ''corp.local'' ''svc'') ''secret'' False,
          Search 1 ''DC=corp,DC=local'' ''(objectClass=group)'' [''cn'', ''msDS-PSOApplied''],
          Print (table_header ''Groups'' 6 3), Print (table_separator 6 3), Unbind 1]
   \<and> fst (get_user_attributes (env_directory [] [user_alice] []) ''svc'' ''secret'' ''corp.local''
            (Some ''10.0.0.5'') []) = Inr ()
   \<and> last (snd (get_user_attributes (env_directory [] [user_alice] []) ''svc'' ''secret'' ''corp.local''
            (Some ''10.0.0.5'') [])) = Unbind 1
   \<and> snd (get_pso_details (env_directory [] [user_alice] []) ''svc'' ''secret'' ''corp.local''
            (Some ''10.0.0.5'') [])
       = [Connect ''10.0.0.5:389'' (logon_name ''corp.local'' ''svc'') ''secret'' False,
          Search 1 ''CN=Password Settings Container,CN=System,DC=corp,DC=local''
            ''(objectclass=msDS-PasswordSettings)'' pso_attributes,
          Print ''Could not enumerate details, you likely do not have the privileges to do so!'',
          Unbind 1]"
proof -
  let ?E = "env_directory [] [user_alice] []"
  have s: "open_session ?E ''svc'' ''secret'' ''corp.local'' (Some ''10.0.0.5'') []
     = (Inr (Some 1), [Connect ''10.0.0.5:389'' (logon_name ''corp.local'' ''svc'') ''secret'' False])"
    using demo_session [of "[]" "[user_alice]" "[]" "[]"] by simp
  have f: "fst (get_user_attributes ?E ''svc'' ''secret'' ''corp.local'' (Some ''10.0.0.5'') []) = Inr ()"
    by (simp add: demo_users_ok)
  have g: "search ?E [Connect ''10.0.0.5:389'' (logon_name ''corp.local'' ''svc'') ''secret'' False] 1
             (search_base_of ''corp.local'') ''(objectClass=group)'' [''cn'', ''msDS-PSOApplied''] = Inr []"
    by (simp add: env_directory_def)
  have d: "search ?E [Connect ''10.0.0.5:389'' (logon_name ''corp.local'' ''svc'') ''secret'' False] 1
             (password_settings_base ''corp.local'') ''(objectclass=msDS-PasswordSettings)'' pso_attributes = Inr []"
    by (simp add: env_directory_def)
  note r = session_released [OF s]
  from r f obtain out where
    "snd (get_user_attributes ?E ''svc'' ''secret'' ''corp.local'' (Some ''10.0.0.5'') [])
     = [Connect ''10.0.0.5:389'' (logon_name ''corp.local'' ''svc'') ''secret'' False]
       @ Search 1 (search_base_of ''corp.local'') ''(objectClass=user)'' [''sAMAccountName'', ''msDS-ResultantPSO'']
         # map Print out @ [Unbind 1]"
    by blast
  then have u: "last (snd (get_user_attributes ?E ''svc'' ''secret'' ''corp.local'' (Some ''10.0.0.5'') [])) = Unbind 1"
    by simp
  from r g have g': "snd (get_group_pso ?E ''svc'' ''secret'' ''corp.local'' (Some ''10.0.0.5'') [])
       = [Connect ''10.0.0.5:389'' (logon_name ''corp.local'' ''svc'') ''secret'' False,
          Search 1 ''DC=corp,DC=local'' ''(objectClass=group)'' [''cn'', ''msDS-PSOApplied''],
          Print (table_header ''Groups'' 6 3), Print (table_separator 6 3), Unbind 1]"
    by (simp add: corp_base)
  from r d have d': "snd (get_pso_details ?E ''svc'' ''secret'' ''corp.local'' (Some ''10.0.0.5'') [])
       = [Connect ''10.0.0.5:389'' (logon_name ''corp.local'' ''svc'') ''secret'' False,
          Search 1 ''CN=Password Settings Container,CN=System,DC=corp,DC=local''
            ''(objectclass=msDS-PasswordSettings)'' pso_attributes,
          Print ''Could not enumerate details, you likely do not have the privileges to do so!'',
          Unbind 1]"
    by (simp add: corp_settings_base)
  from s g' f u d' show ?thesis by (intro conjI)
qed

text \<open>
  The claim as it stands fails when an exception is raised after the bind: the query for
  users on an entry whose policy has no equals sign raises \<open>IndexError\<close>, and its log
  ends with the search; the session is never released.
\<close>

theorem session_released_counterexample:
  "open_session (env_directory [] [user_mallory] []) ''svc'' ''secret'' ''corp.local'' (Some ''10.0.0.5'') []
     = (Inr (Some 1), [Connect ''10.0.0.5:389'' (logon_name ''corp.local'' ''svc'') ''secret'' False])
   \<and> get_user_attributes (env_directory [] [user_mallory] []) ''svc'' ''secret'' ''corp.local''
        (Some ''10.0.0.5'') []
     = (Inl IndexError,
        [Connect ''10.0.0.5:389'' (logon_name ''corp.local'' ''svc'') ''secret'' False,
         Search 1 ''DC=corp,DC=local'' ''(objectClass=user)'' [''sAMAccountName'', ''msDS-ResultantPSO'']])"
proof -
  have s: "open_session (env_directory [] [user_mallory] []) ''svc'' ''secret'' ''corp.local'' (Some ''10.0.0.5'') []
     = (Inr (Some 1), [Connect ''10.0.0.5:389'' (logon_name ''corp.local'' ''svc'') ''secret'' False])"
    using demo_session [of "[]" "[user_mallory]" "[]" "[]"] by simp
  have "get_user_attributes (env_directory [] [user_mallory] []) ''svc'' ''secret'' ''corp.local''
        (Some ''10.0.0.5'') []
     = (Inl IndexError,
        [Connect ''10.0.0.5:389'' (logon_name ''corp.local'' ''svc'') ''secret'' False,
         Search 1 ''DC=corp,DC=local'' ''(objectClass=user)'' [''sAMAccountName'', ''msDS-ResultantPSO'']])"
    unfolding get_user_attributes_def session_frame_Some [OF s]
    by (simp add: bind_def do_search_def env_directory_def corp_base users_table_def lift_def
        user_row_def getitem_def user_mallory_def present_nonempty_def attr_str_def plain_name)
  with s show ?thesis by simp
qed

subsection \<open>The details of a policy\<close>

text \<open>
  Lines 175, 176, 178 and 179 say \<^verbatim>\<open>N/A\<close> for an interval when the test
  \<^verbatim>\<open>key in entry\<close> fails, which is when the entry does not know the attribute at all.
  An attribute that the entry has without a value passes the test: its \<^verbatim>\<open>.value\<close> is
  \<open>None\<close>, and \<^verbatim>\<open>int(None)\<close> raises \<open>TypeError\<close>.
\<close>

lemma interval_line_absent: "e key = None \<Longrightarrow> interval_line env e label key = Inr (label @ ''N/A'')"
  by (simp add: interval_line_def)

lemma interval_line_no_value: "e key = Some [] \<Longrightarrow> interval_line env e label key = Inl TypeError"
  by (simp add: interval_line_def attr_value_def py_int_def)

lemma print_lines_raise:
  "print_lines (map Inr out @ Inl err # rest) log = (Inl err, log @ map Print out)"
  by (induction out arbitrary: log) simp_all

lemma policy_sparse_lines:
  "take 6 (entry_lines env policy_sparse) =
     [Inr (''Policy Name: '' @ BLUE @ ''StrictPolicy'' @ RESET),
      Inr ''Description: None'',
      Inr (''Minimum Password Length: '' @ CYAN @ ''14'' @ RESET),
      Inr (''Password History Length: '' @ CYAN @ ''24'' @ RESET),
      Inr (''Lockout Threshold: '' @ CYAN @ ''5'' @ RESET),
      Inl TypeError]"
  by (simp add: entry_lines_def policy_sparse_def plain_line_def interval_line_def getitem_def
      attr_value_def py_str_def py_int_def)

lemma policy_sparse_details:
  "print_details env (policy_sparse # ps) log =
     (Inl TypeError,
      log @ [Print (''Policy Name: '' @ BLUE @ ''StrictPolicy'' @ RESET),
             Print ''Description: None'',
             Print (''Minimum Password Length: '' @ CYAN @ ''14'' @ RESET),
             Print (''Password History Length: '' @ CYAN @ ''24'' @ RESET),
             Print (''Lockout Threshold: '' @ CYAN @ ''5'' @ RESET)])"
proof -
  have "entry_lines env policy_sparse
      = take 6 (entry_lines env policy_sparse) @ drop 6 (entry_lines env policy_sparse)"
    by simp
  then obtain rest where "entry_lines env policy_sparse =
     map Inr [''Policy Name: '' @ BLUE @ ''StrictPolicy'' @ RESET,
      ''Description: None'',
      ''Minimum Password Length: '' @ CYAN @ ''14'' @ RESET,
      ''Password History Length: '' @ CYAN @ ''24'' @ RESET,
      ''Lockout Threshold: '' @ CYAN @ ''5'' @ RESET] @ Inl TypeError # rest"
    unfolding policy_sparse_lines by simp
  then have "concat (map (entry_lines env) (policy_sparse # ps)) =
     map Inr [''Policy Name: '' @ BLUE @ ''StrictPolicy'' @ RESET,
      ''Description: None'',
      ''Minimum Password Length: '' @ CYAN @ ''14'' @ RESET,
      ''Password History Length: '' @ CYAN @ ''24'' @ RESET,
      ''Lockout Threshold: '' @ CYAN @ ''5'' @ RESET]
     @ Inl TypeError # (rest @ concat (map (entry_lines env) ps))"
    by simp
  then have "print_lines (concat (map (entry_lines env) (policy_sparse # ps))) log
     = (Inl TypeError, log @ map Print [''Policy Name: '' @ BLUE @ ''StrictPolicy'' @ RESET,
      ''Description: None'',
      ''Minimum Password Length: '' @ CYAN @ ''14'' @ RESET,
      ''Password History Length: '' @ CYAN @ ''24'' @ RESET,
      ''Lockout Threshold: '' @ CYAN @ ''5'' @ RESET])"
    by (simp only: print_lines_raise)
  then show ?thesis by (simp add: print_details_def)
qed

lemma sparse_details_query:
  "get_pso_details (env_directory gs us (policy_sparse # ps)) ''svc'' ''secret'' ''corp.local''
     (Some ''10.0.0.5'') log
     = (Inl TypeError,
        log @ [Connect ''10.0.0.5:389'' (logon_name ''corp.local'' ''svc'') ''secret'' False,
         Search 1 ''CN=Password Settings Container,CN=System,DC=corp,DC=local''
           ''(objectclass=msDS-PasswordSettings)'' pso_attributes,
         Print (''Policy Name: '' @ BLUE @ ''StrictPolicy'' @ RESET),
         Print ''Description: None'',
         Print (''Minimum Password Length: '' @ CYAN @ ''14'' @ RESET),
         Print (''Password History Length: '' @ CYAN @ ''24'' @ RESET),
         Print (''Lockout Threshold: '' @ CYAN @ ''5'' @ RESET)])"
  unfolding get_pso_details_def session_frame_Some [OF demo_session]
  by (simp add: bind_def do_search_def env_directory_def corp_settings_base policy_sparse_details)

text \<open>
  Claim C7. An interval that a policy lacks is not rendered as \<^verbatim>\<open>N/A\<close>, and its absence
  ends the query. The policy \<open>policy_sparse\<close> has no observation window: the attribute
  is on the entry without a value, as the connection of the script delivers an attribute
  that the directory did not send. Its line is not \<^verbatim>\<open>Observation Window: N/A\<close>: the test
  of line 175 holds, \<^verbatim>\<open>int(None)\<close> raises \<open>TypeError\<close>, and the query for the policies
  ends there. It has printed the name of the policy, a description \<^verbatim>\<open>None\<close> and three
  lines more; the seven lines that remain and the policies that follow are not printed,
  and the session is not released.
\<close>

theorem policy_absent_interval_raises:
  "policy_sparse ''msds-lockoutobservationwindow'' = Some []
   \<and> interval_line (env_directory [] [] [policy_sparse]) policy_sparse
         ''Observation Window: '' ''msds-lockoutobservationwindow''
       = Inl TypeError
   \<and> print_details (env_directory [] [] [policy_sparse]) [policy_sparse] []
       = (Inl TypeError,
          [Print (''Policy Name: '' @ BLUE @ ''StrictPolicy'' @ RESET),
           Print ''Description: None'',
           Print (''Minimum Password Length: '' @ CYAN @ ''14'' @ RESET),
           Print (''Password History Length: '' @ CYAN @ ''24'' @ RESET),
           Print (''Lockout Threshold: '' @ CYAN @ ''5'' @ RESET)])
   \<and> get_pso_details (env_directory [] [] [policy_sparse]) ''svc'' ''secret'' ''corp.local''
         (Some ''10.0.0.5'') []
       = (Inl TypeError,
          [Connect ''10.0.0.5:389'' (logon_name ''corp.local'' ''svc'') ''secret'' False,
           Search 1 ''CN=Password Settings Container,CN=System,DC=corp,DC=local''
             ''(objectclass=msDS-PasswordSettings)'' pso_attributes,
           Print (''Policy Name: '' @ BLUE @ ''StrictPolicy'' @ RESET),
           Print ''Description: None'',
           Print (''Minimum Password Length: '' @ CYAN @ ''14'' @ RESET),
           Print (''Password History Length: '' @ CYAN @ ''24'' @ RESET),
           Print (''Lockout Threshold: '' @ CYAN @ ''5'' @ RESET)])"
proof -
  have w: "policy_sparse ''msds-lockoutobservationwindow'' = Some []"
    by (simp add: policy_sparse_def)
  from w have "interval_line (env_directory [] [] [policy_sparse]) policy_sparse
         ''Observation Window: '' ''msds-lockoutobservationwindow'' = Inl TypeError"
    by (rule interval_line_no_value)
  with w policy_sparse_details [of "env_directory [] [] [policy_sparse]" "[]" "[]"]
    sparse_details_query [of "[]" "[]" "[]" "[]"]
  show ?thesis by simp
qed

subsection \<open>The main program\<close>

lemma body_extends:
  assumes tl: "\<And>es l. \<exists>out. snd (tbl es l) = l @ map Print out"
  shows "\<exists>r. snd (bind (do_search env c b f a) (\<lambda>es. bind (tbl es) (\<lambda>_. do_unbind env c)) l) = l @ r"
proof (cases "search env l c b f a")
  case (Inl e)
  then show ?thesis by (simp add: bind_def do_search_def)
next
  case (Inr es)
  from tl [of es "l @ [Search c b f a]"] obtain out
    where out: "snd (tbl es (l @ [Search c b f a])) = (l @ [Search c b f a]) @ map Print out" ..
  obtain r l' where t: "tbl es (l @ [Search c b f a]) = (r, l')" by (cases "tbl es (l @ [Search c b f a])")
  with Inr out show ?thesis
    by (cases r) (simp_all add: bind_def do_search_def do_unbind_log)
qed

lemma frame_plain_first:
  assumes ext: "\<And>c l. \<exists>r. snd (body c l) = l @ r"
  shows "\<exists>rest. snd (bind (open_session env username password domain dc_ip)
                    (\<lambda>conn. case conn of None \<Rightarrow> both_failed | Some c \<Rightarrow> body c) log)
          = log @ Connect (server_address_ldap domain dc_ip) (logon_name domain username) password False # rest"
proof -
  obtain r l where o: "open_session env username password domain dc_ip log = (r, l)"
    by (cases "open_session env username password domain dc_ip log")
  from open_session_plain_first [of env username password domain dc_ip log] o obtain rest
    where l: "l = log @ Connect (server_address_ldap domain dc_ip) (logon_name domain username) password False # rest"
    by auto
  show ?thesis
  proof (cases r)
    case (Inl e)
    with o l show ?thesis by (simp add: bind_def)
  next
    case (Inr conn)
    show ?thesis
    proof (cases conn)
      case None
      with o l Inr show ?thesis by (simp add: bind_def both_failed_def emit_def)
    next
      case (Some c)
      from ext [of c l] obtain r' where "snd (body c l) = l @ r'" ..
      with o l Inr Some show ?thesis by (simp add: bind_def)
    qed
  qed
qed

lemma details_plain_first:
  "\<exists>rest. snd (get_pso_details env username password domain dc_ip log)
     = log @ Connect (server_address_ldap domain dc_ip) (logon_name domain username) password False # rest"
  unfolding get_pso_details_def
  by (rule frame_plain_first) (rule body_extends, rule print_details_log)

lemma frame_unreachable:
  assumes "\<forall>l a u p s. handled_failure (connect env l a u p s)"
  shows "\<exists>m1 m2. bind (open_session env username password domain dc_ip)
                    (\<lambda>conn. case conn of None \<Rightarrow> both_failed | Some c \<Rightarrow> body c) log
          = (Inr (), log @ [Connect (server_address_ldap domain dc_ip) (logon_name domain username) password False,
                            Print m1, trying_ldaps,
                            Connect (server_address_ldaps domain dc_ip) (logon_name domain username) password True,
                            Print m2, Print ''Both LDAP and LDAPS connection attempts failed.''])"
proof -
  from assms have a: "handled_failure (connect env log (server_address_ldap domain dc_ip) (logon_name domain username) password False)"
    and b: "handled_failure (connect env (fallback_log env username password domain dc_ip log)
           (server_address_ldaps domain dc_ip) (logon_name domain username) password True)"
    by blast+
  from open_session_fallback(2) [OF a] obtain m1 where
    f: "fallback_log env username password domain dc_ip log
       = log @ [Connect (server_address_ldap domain dc_ip) (logon_name domain username) password False, Print m1, trying_ldaps]" ..
  from both_fail_session [OF a b] obtain m2 where
    o: "open_session env username password domain dc_ip log
       = (Inr None, fallback_log env username password domain dc_ip log
            @ [Connect (server_address_ldaps domain dc_ip) (logon_name domain username) password True, Print m2])" ..
  then have n: "fst (open_session env username password domain dc_ip log) = Inr None" by simp
  have "bind (open_session env username password domain dc_ip)
                    (\<lambda>conn. case conn of None \<Rightarrow> both_failed | Some c \<Rightarrow> body c) log
          = (Inr (), log @ [Connect (server_address_ldap domain dc_ip) (logon_name domain username) password False,
                            Print m1, trying_ldaps,
                            Connect (server_address_ldaps domain dc_ip) (logon_name domain username) password True,
                            Print m2, Print ''Both LDAP and LDAPS connection attempts failed.''])"
    unfolding session_frame_None [OF n] using o f by simp
  then show ?thesis by blast
qed

lemma main_unfold:
  "main env username password domain dc_ip log =
     (case get_group_pso env username password domain (Some dc_ip) (log @ [Print ''Groups with PSO applied:'']) of
        (Inl e, l) \<Rightarrow> (Inl e, l)
      | (Inr _, l) \<Rightarrow>
          (case get_user_attributes env username password domain (Some dc_ip)
                  (l @ [Print (CHR 0x0A # ''Users with PSO applied:'')]) of
             (Inl e, l) \<Rightarrow> (Inl e, l)
           | (Inr _, l) \<Rightarrow>
               (case get_pso_details env username password domain (Some dc_ip)
                       (l @ [Print (CHR 0x0A # ''PSO Details:'')]) of
                  (Inl e, l) \<Rightarrow> (Inr (), l @ [Report e])
                | (Inr _, l) \<Rightarrow> (Inr (), l))))"
  by (simp add: main_def bind_def emit_def catch_def split: prod.splits sum.splits)

lemma users_plain_first:
  "\<exists>rest. snd (get_user_attributes env username password domain dc_ip log)
     = log @ Connect (server_address_ldap domain dc_ip) (logon_name domain username) password False # rest"
  unfolding get_user_attributes_def users_table_def
  by (rule frame_plain_first) (rule body_extends, rule table_log)

lemma demo_groups_empty:
  "get_group_pso (env_directory [] us ps) ''svc'' ''secret'' ''corp.local'' (Some ''10.0.0.5'') log
     = (Inr (), log @ [Connect ''10.0.0.5:389'' (logon_name ''corp.local'' ''svc'') ''secret'' False,
          Search 1 ''DC=corp,DC=local'' ''(objectClass=group)'' [''cn'', ''msDS-PSOApplied''],
          Print (table_header ''Groups'' 6 3), Print (table_separator 6 3), Unbind 1])"
  unfolding get_group_pso_def session_frame_Some [OF demo_session]
  by (simp add: bind_def do_search_def env_directory_def corp_base groups_table_def lift_def
      print_table_def do_unbind_def)

lemma demo_users_empty:
  "get_user_attributes (env_directory gs [] ps) ''svc'' ''secret'' ''corp.local'' (Some ''10.0.0.5'') log
     = (Inr (), log @ [Connect ''10.0.0.5:389'' (logon_name ''corp.local'' ''svc'') ''secret'' False,
          Search 1 ''DC=corp,DC=local'' ''(objectClass=user)'' [''sAMAccountName'', ''msDS-ResultantPSO''],
          Print (table_header ''Users'' 5 3), Print (table_separator 5 3), Unbind 1])"
  unfolding get_user_attributes_def session_frame_Some [OF demo_session]
  by (simp add: bind_def do_search_def env_directory_def corp_base users_table_def lift_def
      print_table_def do_unbind_def)

text \<open>
  Claim C6, as amended. When the query for groups returns without an exception, the query
  for users is attempted: its plaintext attempt is in the log. When the query for users
  returns as well, the query for the policies is attempted, and the run ends without an
  exception whatever that last query does: when it raises, the log of the run is the log
  of that query followed by the report of the exception by the handler of lines 211 and
  212; when it returns, the log of the run is the log of that query. A directory that
  cannot be reached or rejects every bind makes no query raise: the run ends without an
  exception after three encrypted attempts, one for each query.
\<close>

theorem main_proceeds:
  "(fst (get_group_pso env username password domain (Some dc_ip)
           (log @ [Print ''Groups with PSO applied:''])) = Inr ()
    \<longrightarrow> (\<exists>rest. snd (main env username password domain dc_ip log)
              = users_start env username password domain dc_ip log
                @ Connect (server_address_ldap domain (Some dc_ip)) (logon_name domain username) password False
                  # rest))
   \<and> (fst (get_group_pso env username password domain (Some dc_ip)
           (log @ [Print ''Groups with PSO applied:''])) = Inr ()
    \<and> fst (get_user_attributes env username password domain (Some dc_ip)
             (users_start env username password domain dc_ip log)) = Inr ()
    \<longrightarrow> fst (main env username password domain dc_ip log) = Inr ()
        \<and> (\<exists>rest. snd (main env username password domain dc_ip log)
              = details_start env username password domain dc_ip log
                @ Connect (server_address_ldap domain (Some dc_ip)) (logon_name domain username) password False
                  # rest)
        \<and> (fst (get_pso_details env username password domain (Some dc_ip)
                   (details_start env username password domain dc_ip log)) = Inl err
             \<longrightarrow> main env username password domain dc_ip log
                 = (Inr (), snd (get_pso_details env username password domain (Some dc_ip)
                                   (details_start env username password domain dc_ip log))
                            @ [Report err]))
        \<and> (fst (get_pso_details env username password domain (Some dc_ip)
                   (details_start env username password domain dc_ip log)) = Inr ()
             \<longrightarrow> main env username password domain dc_ip log
                 = (Inr (), snd (get_pso_details env username password domain (Some dc_ip)
                                   (details_start env username password domain dc_ip log)))))
   \<and> ((\<forall>l a u p s. handled_failure (connect env l a u p s))
      \<longrightarrow> fst (main env username password domain dc_ip log) = Inr ()
        \<and> ssl_attempts (snd (main env username password domain dc_ip log))
            = ssl_attempts log
              @ replicate 3 (server_address_ldaps domain (Some dc_ip), logon_name domain username, password))"
proof (intro conjI impI)
  assume a: "fst (get_group_pso env username password domain (Some dc_ip)
           (log @ [Print ''Groups with PSO applied:''])) = Inr ()"
  obtain lg where g: "get_group_pso env username password domain (Some dc_ip)
           (log @ [Print ''Groups with PSO applied:'']) = (Inr (), lg)"
    using a by (cases "get_group_pso env username password domain (Some dc_ip)
           (log @ [Print ''Groups with PSO applied:''])") auto
  then have us: "users_start env username password domain dc_ip log
      = lg @ [Print (CHR 0x0A # ''Users with PSO applied:'')]"
    by (simp add: users_start_def)
  obtain ru lu where u: "get_user_attributes env username password domain (Some dc_ip)
           (lg @ [Print (CHR 0x0A # ''Users with PSO applied:'')]) = (ru, lu)"
    by (cases "get_user_attributes env username password domain (Some dc_ip)
           (lg @ [Print (CHR 0x0A # ''Users with PSO applied:'')])")
  from users_plain_first [of env username password domain "Some dc_ip"
      "lg @ [Print (CHR 0x0A # ''Users with PSO applied:'')]"] u
  obtain rest where lu: "lu = (lg @ [Print (CHR 0x0A # ''Users with PSO applied:'')])
      @ Connect (server_address_ldap domain (Some dc_ip)) (logon_name domain username) password False # rest"
    by auto
  obtain r ld where d: "get_pso_details env username password domain (Some dc_ip)
           (lu @ [Print (CHR 0x0A # ''PSO Details:'')]) = (r, ld)"
    by (cases "get_pso_details env username password domain (Some dc_ip)
           (lu @ [Print (CHR 0x0A # ''PSO Details:'')])")
  from details_plain_first [of env username password domain "Some dc_ip" "lu @ [Print (CHR 0x0A # ''PSO Details:'')]"] d
  obtain rest' where ld: "ld = (lu @ [Print (CHR 0x0A # ''PSO Details:'')])
      @ Connect (server_address_ldap domain (Some dc_ip)) (logon_name domain username) password False # rest'"
    by auto
  show "\<exists>rest. snd (main env username password domain dc_ip log)
              = users_start env username password domain dc_ip log
                @ Connect (server_address_ldap domain (Some dc_ip)) (logon_name domain username) password False
                  # rest"
  proof (cases ru)
    case (Inl e)
    with g u lu us show ?thesis by (simp add: main_unfold)
  next
    case (Inr x)
    with g u d lu ld us show ?thesis by (cases r) (simp_all add: main_unfold)
  qed
next
  assume a: "fst (get_group_pso env username password domain (Some dc_ip)
           (log @ [Print ''Groups with PSO applied:''])) = Inr ()
    \<and> fst (get_user_attributes env username password domain (Some dc_ip)
             (users_start env username password domain dc_ip log)) = Inr ()"
  obtain lg where g: "get_group_pso env username password domain (Some dc_ip)
           (log @ [Print ''Groups with PSO applied:'']) = (Inr (), lg)"
    using a by (cases "get_group_pso env username password domain (Some dc_ip)
           (log @ [Print ''Groups with PSO applied:''])") auto
  then have us: "users_start env username password domain dc_ip log
      = lg @ [Print (CHR 0x0A # ''Users with PSO applied:'')]"
    by (simp add: users_start_def)
  obtain lu where u: "get_user_attributes env username password domain (Some dc_ip)
           (lg @ [Print (CHR 0x0A # ''Users with PSO applied:'')]) = (Inr (), lu)"
    using a us by (cases "get_user_attributes env username password domain (Some dc_ip)
           (lg @ [Print (CHR 0x0A # ''Users with PSO applied:'')])") auto
  with us have ds: "details_start env username password domain dc_ip log
      = lu @ [Print (CHR 0x0A # ''PSO Details:'')]"
    by (simp add: details_start_def)
  obtain r ld where d: "get_pso_details env username password domain (Some dc_ip)
           (lu @ [Print (CHR 0x0A # ''PSO Details:'')]) = (r, ld)"
    by (cases "get_pso_details env username password domain (Some dc_ip)
           (lu @ [Print (CHR 0x0A # ''PSO Details:'')])")
  from details_plain_first [of env username password domain "Some dc_ip" "lu @ [Print (CHR 0x0A # ''PSO Details:'')]"] d
  obtain rest where ld: "ld = (lu @ [Print (CHR 0x0A # ''PSO Details:'')])
      @ Connect (server_address_ldap domain (Some dc_ip)) (logon_name domain username) password False # rest"
    by auto
  show "fst (main env username password domain dc_ip log) = Inr ()"
    using g u d by (cases r) (simp_all add: main_unfold)
  show "\<exists>rest. snd (main env username password domain dc_ip log)
              = details_start env username password domain dc_ip log
                @ Connect (server_address_ldap domain (Some dc_ip)) (logon_name domain username) password False
                  # rest"
    using g u d ld ds by (cases r) (simp_all add: main_unfold)
  {
    assume "fst (get_pso_details env username password domain (Some dc_ip)
                   (details_start env username password domain dc_ip log)) = Inl err"
    with g u d ds
    show "main env username password domain dc_ip log
                 = (Inr (), snd (get_pso_details env username password domain (Some dc_ip)
                                   (details_start env username password domain dc_ip log))
                            @ [Report err])"
      by (simp add: main_unfold)
  }
  {
    assume "fst (get_pso_details env username password domain (Some dc_ip)
                   (details_start env username password domain dc_ip log)) = Inr ()"
    with g u d ds
    show "main env username password domain dc_ip log
                 = (Inr (), snd (get_pso_details env username password domain (Some dc_ip)
                                   (details_start env username password domain dc_ip log)))"
      by (simp add: main_unfold)
  }
next
  assume h: "\<forall>l a u p s. handled_failure (connect env l a u p s)"
  let ?G = "log @ [Print ''Groups with PSO applied:'']"
  from frame_unreachable [OF h, of username password domain "Some dc_ip" _ ?G]
  obtain lg where g: "get_group_pso env username password domain (Some dc_ip) ?G = (Inr (), lg)"
    and sg: "ssl_attempts lg = ssl_attempts log @ [(server_address_ldaps domain (Some dc_ip), logon_name domain username, password)]"
    unfolding get_group_pso_def
    by (fastforce simp add: ssl_attempts_append ssl_attempts_simps trying_ldaps_def)
  let ?U = "lg @ [Print (CHR 0x0A # ''Users with PSO applied:'')]"
  from frame_unreachable [OF h, of username password domain "Some dc_ip" _ ?U]
  obtain lu where u: "get_user_attributes env username password domain (Some dc_ip) ?U = (Inr (), lu)"
    and su: "ssl_attempts lu = ssl_attempts lg @ [(server_address_ldaps domain (Some dc_ip), logon_name domain username, password)]"
    unfolding get_user_attributes_def
    by (fastforce simp add: ssl_attempts_append ssl_attempts_simps trying_ldaps_def)
  let ?D = "lu @ [Print (CHR 0x0A # ''PSO Details:'')]"
  from frame_unreachable [OF h, of username password domain "Some dc_ip" _ ?D]
  obtain ld where d: "get_pso_details env username password domain (Some dc_ip) ?D = (Inr (), ld)"
    and sd: "ssl_attempts ld = ssl_attempts lu @ [(server_address_ldaps domain (Some dc_ip), logon_name domain username, password)]"
    unfolding get_pso_details_def
    by (fastforce simp add: ssl_attempts_append ssl_attempts_simps trying_ldaps_def)
  show "fst (main env username password domain dc_ip log) = Inr ()"
    using g u d by (simp add: main_unfold)
  show "ssl_attempts (snd (main env username password domain dc_ip log))
            = ssl_attempts log
              @ replicate 3 (server_address_ldaps domain (Some dc_ip), logon_name domain username, password)"
    using g u d sg su sd by (simp add: main_unfold eval_nat_numeral)
qed

text \<open>
  Two runs. Against a directory with no group, no user and the policy \<open>policy_sparse\<close>,
  the queries for groups and users print their empty tables, the query for the policies
  raises \<open>TypeError\<close> after five lines, and the run ends with the report of that
  exception. Against a directory that cannot be reached, the run ends after three
  encrypted attempts.
\<close>

theorem main_proceeds_witness:
  "main (env_directory [] [] [policy_sparse]) ''svc'' ''secret'' ''corp.local'' ''10.0.0.5'' []
     = (Inr (),
        [Print ''Groups with PSO applied:'',
         Connect ''10.0.0.5:389'' (logon_name ''corp.local'' ''svc'') ''secret'' False,
         Search 1 ''DC=corp,DC=local'' ''(objectClass=group)'' [''cn'', ''msDS-PSOApplied''],
         Print (table_header ''Groups'' 6 3), Print (table_separator 6 3), Unbind 1,
         Print (CHR 0x0A # ''Users with PSO applied:''),
         Connect ''10.0.0.5:389'' (logon_name ''corp.local'' ''svc'') ''secret'' False,
         Search 1 ''DC=corp,DC=local'' ''(objectClass=user)'' [''sAMAccountName'', ''msDS-ResultantPSO''],
         Print (table_header ''Users'' 5 3), Print (table_separator 5 3), Unbind 1,
         Print (CHR 0x0A # ''PSO Details:''),
         Connect ''10.0.0.5:389'' (logon_name ''corp.local'' ''svc'') ''secret'' False,
         Search 1 ''CN=Password Settings Container,CN=System,DC=corp,DC=local''
           ''(objectclass=msDS-PasswordSettings)'' pso_attributes,
         Print (''Policy Name: '' @ BLUE @ ''StrictPolicy'' @ RESET),
         Print ''Description: None'',
         Print (''Minimum Password Length: '' @ CYAN @ ''14'' @ RESET),
         Print (''Password History Length: '' @ CYAN @ ''24'' @ RESET),
         Print (''Lockout Threshold: '' @ CYAN @ ''5'' @ RESET),
         Report TypeError])
   \<and> (\<forall>l a u p s. handled_failure (connect env_unreachable l a u p s))
   \<and> fst (get_group_pso env_unreachable ''svc'' ''secret'' ''corp.local'' (Some ''10.0.0.5'')
            [Print ''Groups with PSO applied:'']) = Inr ()
   \<and> fst (get_user_attributes env_unreachable ''svc'' ''secret'' ''corp.local'' (Some ''10.0.0.5'')
            (users_start env_unreachable ''svc'' ''secret'' ''corp.local'' ''10.0.0.5'' [])) = Inr ()
   \<and> fst (main env_unreachable ''svc'' ''secret'' ''corp.local'' ''10.0.0.5'' []) = Inr ()
   \<and> ssl_attempts (snd (main env_unreachable ''svc'' ''secret'' ''corp.local'' ''10.0.0.5'' []))
       = replicate 3 (''10.0.0.5:636'', logon_name ''corp.local'' ''svc'', ''secret'')"
proof -
  let ?E = "env_directory [] [] [policy_sparse]"
  have sg: "fst (get_group_pso ?E ''svc'' ''secret'' ''corp.local'' (Some ''10.0.0.5'')
            ([] @ [Print ''Groups with PSO applied:''])) = Inr ()"
    by (simp add: demo_groups_empty)
  have sus: "users_start ?E ''svc'' ''secret'' ''corp.local'' ''10.0.0.5'' []
      = [Print ''Groups with PSO applied:'',
         Connect ''10.0.0.5:389'' (logon_name ''corp.local'' ''svc'') ''secret'' False,
         Search 1 ''DC=corp,DC=local'' ''(objectClass=group)'' [''cn'', ''msDS-PSOApplied''],
         Print (table_header ''Groups'' 6 3), Print (table_separator 6 3), Unbind 1,
         Print (CHR 0x0A # ''Users with PSO applied:'')]"
    by (simp add: users_start_def demo_groups_empty)
  have su: "fst (get_user_attributes ?E ''svc'' ''secret'' ''corp.local'' (Some ''10.0.0.5'')
            (users_start ?E ''svc'' ''secret'' ''corp.local'' ''10.0.0.5'' [])) = Inr ()"
    by (simp add: demo_users_empty)
  have sds: "details_start ?E ''svc'' ''secret'' ''corp.local'' ''10.0.0.5'' []
      = [Print ''Groups with PSO applied:'',
         Connect ''10.0.0.5:389'' (logon_name ''corp.local'' ''svc'') ''secret'' False,
         Search 1 ''DC=corp,DC=local'' ''(objectClass=group)'' [''cn'', ''msDS-PSOApplied''],
         Print (table_header ''Groups'' 6 3), Print (table_separator 6 3), Unbind 1,
         Print (CHR 0x0A # ''Users with PSO applied:''),
         Connect ''10.0.0.5:389'' (logon_name ''corp.local'' ''svc'') ''secret'' False,
         Search 1 ''DC=corp,DC=local'' ''(objectClass=user)'' [''sAMAccountName'', ''msDS-ResultantPSO''],
         Print (table_header ''Users'' 5 3), Print (table_separator 5 3), Unbind 1,
         Print (CHR 0x0A # ''PSO Details:'')]"
    by (simp add: details_start_def sus demo_users_empty)
  have sd: "fst (get_pso_details ?E ''svc'' ''secret'' ''corp.local'' (Some ''10.0.0.5'')
            (details_start ?E ''svc'' ''secret'' ''corp.local'' ''10.0.0.5'' [])) = Inl TypeError"
    by (simp add: sparse_details_query)
  from main_proceeds [of ?E "''svc''" "''secret''" "''corp.local''" "''10.0.0.5''" "[]" TypeError] sg su sd
  have "main ?E ''svc'' ''secret'' ''corp.local'' ''10.0.0.5'' []
      = (Inr (), snd (get_pso_details ?E ''svc'' ''secret'' ''corp.local'' (Some ''10.0.0.5'')
                        (details_start ?E ''svc'' ''secret'' ''corp.local'' ''10.0.0.5'' []))
                 @ [Report TypeError])"
    by blast
  then have first: "main ?E ''svc'' ''secret'' ''corp.local'' ''10.0.0.5'' []
     = (Inr (),
        [Print ''Groups with PSO applied:'',
         Connect ''10.0.0.5:389'' (logon_name ''corp.local'' ''svc'') ''secret'' False,
         Search 1 ''DC=corp,DC=local'' ''(objectClass=group)'' [''cn'', ''msDS-PSOApplied''],
         Print (table_header ''Groups'' 6 3), Print (table_separator 6 3), Unbind 1,
         Print (CHR 0x0A # ''Users with PSO applied:''),
         Connect ''10.0.0.5:389'' (logon_name ''corp.local'' ''svc'') ''secret'' False,
         Search 1 ''DC=corp,DC=local'' ''(objectClass=user)'' [''sAMAccountName'', ''msDS-ResultantPSO''],
         Print (table_header ''Users'' 5 3), Print (table_separator 5 3), Unbind 1,
         Print (CHR 0x0A # ''PSO Details:''),
         Connect ''10.0.0.5:389'' (logon_name ''corp.local'' ''svc'') ''secret'' False,
         Search 1 ''CN=Password Settings Container,CN=System,DC=corp,DC=local''
           ''(objectclass=msDS-PasswordSettings)'' pso_attributes,
         Print (''Policy Name: '' @ BLUE @ ''StrictPolicy'' @ RESET),
         Print ''Description: None'',
         Print (''Minimum Password Length: '' @ CYAN @ ''14'' @ RESET),
         Print (''Password History Length: '' @ CYAN @ ''24'' @ RESET),
         Print (''Lockout Threshold: '' @ CYAN @ ''5'' @ RESET),
         Report TypeError])"
    by (simp add: sparse_details_query sds)
  note h = unreachable_handled
  have g: "fst (get_group_pso env_unreachable ''svc'' ''secret'' ''corp.local'' (Some ''10.0.0.5'')
            ([] @ [Print ''Groups with PSO applied:''])) = Inr ()"
  proof -
    have "\<exists>m1 m2. get_group_pso env_unreachable ''svc'' ''secret'' ''corp.local'' (Some ''10.0.0.5'')
            ([] @ [Print ''Groups with PSO applied:''])
        = (Inr (), ([] @ [Print ''Groups with PSO applied:''])
            @ [Connect (server_address_ldap ''corp.local'' (Some ''10.0.0.5'')) (logon_name ''corp.local'' ''svc'') ''secret'' False,
               Print m1, trying_ldaps,
               Connect (server_address_ldaps ''corp.local'' (Some ''10.0.0.5'')) (logon_name ''corp.local'' ''svc'') ''secret'' True,
               Print m2, Print ''Both LDAP and LDAPS connection attempts failed.''])"
      unfolding get_group_pso_def by (rule frame_unreachable [OF h])
    then show ?thesis by auto
  qed
  have u: "fst (get_user_attributes env_unreachable ''svc'' ''secret'' ''corp.local'' (Some ''10.0.0.5'')
            (users_start env_unreachable ''svc'' ''secret'' ''corp.local'' ''10.0.0.5'' [])) = Inr ()"
  proof -
    have "\<exists>m1 m2. get_user_attributes env_unreachable ''svc'' ''secret'' ''corp.local'' (Some ''10.0.0.5'')
            (users_start env_unreachable ''svc'' ''secret'' ''corp.local'' ''10.0.0.5'' [])
        = (Inr (), users_start env_unreachable ''svc'' ''secret'' ''corp.local'' ''10.0.0.5'' []
            @ [Connect (server_address_ldap ''corp.local'' (Some ''10.0.0.5'')) (logon_name ''corp.local'' ''svc'') ''secret'' False,
               Print m1, trying_ldaps,
               Connect (server_address_ldaps ''corp.local'' (Some ''10.0.0.5'')) (logon_name ''corp.local'' ''svc'') ''secret'' True,
               Print m2, Print ''Both LDAP and LDAPS connection attempts failed.''])"
      unfolding get_user_attributes_def by (rule frame_unreachable [OF h])
    then show ?thesis by auto
  qed
  from main_proceeds [of env_unreachable "''svc''" "''secret''" "''corp.local''" "''10.0.0.5''" "[]"] h g u
  have "(\<forall>l a u p s. handled_failure (connect env_unreachable l a u p s))
   \<and> fst (get_group_pso env_unreachable ''svc'' ''secret'' ''corp.local'' (Some ''10.0.0.5'')
            [Print ''Groups with PSO applied:'']) = Inr ()
   \<and> fst (get_user_attributes env_unreachable ''svc'' ''secret'' ''corp.local'' (Some ''10.0.0.5'')
            (users_start env_unreachable ''svc'' ''secret'' ''corp.local'' ''10.0.0.5'' [])) = Inr ()
   \<and> fst (main env_unreachable ''svc'' ''secret'' ''corp.local'' ''10.0.0.5'' []) = Inr ()
   \<and> ssl_attempts (snd (main env_unreachable ''svc'' ''secret'' ''corp.local'' ''10.0.0.5'' []))
       = replicate 3 (''10.0.0.5:636'', logon_name ''corp.local'' ''svc'', ''secret'')"
    by (simp add: server_address_ldaps_def server_host_def ssl_attempts_simps)
  with first show ?thesis by (intro conjI) simp_all
qed

text \<open>
  The claim as it stands fails for an exception inside the query for groups: with a group
  whose applied policy has no equals sign the run ends with \<open>IndexError\<close> after the
  search for groups, and the queries for users and for policies are never attempted.
\<close>

theorem main_proceeds_counterexample:
  "main (env_directory [group_broken] [user_alice] []) ''svc'' ''secret'' ''corp.local'' ''10.0.0.5'' []
     = (Inl IndexError,
        [Print ''Groups with PSO applied:'',
         Connect ''10.0.0.5:389'' (logon_name ''corp.local'' ''svc'') ''secret'' False,
         Search 1 ''DC=corp,DC=local'' ''(objectClass=group)'' [''cn'', ''msDS-PSOApplied'']])"
proof -
  have "get_group_pso (env_directory [group_broken] [user_alice] []) ''svc'' ''secret'' ''corp.local''
          (Some ''10.0.0.5'') [Print ''Groups with PSO applied:'']
     = (Inl IndexError,
        [Print ''Groups with PSO applied:'',
         Connect ''10.0.0.5:389'' (logon_name ''corp.local'' ''svc'') ''secret'' False,
         Search 1 ''DC=corp,DC=local'' ''(objectClass=group)'' [''cn'', ''msDS-PSOApplied'']])"
    unfolding get_group_pso_def session_frame_Some [OF demo_session]
    by (simp add: bind_def do_search_def env_directory_def corp_base groups_table_def lift_def
        group_row_def getitem_def getattr_def group_broken_def present_nonempty_def attr_str_def plain_name)
  then show ?thesis by (simp add: main_unfold)
qed

end
